theory Spec2Isabelle
  imports Complex_Main "HOL-Library.Product_Lexorder" "HOL-Library.Multiset"
begin

section \<open>JavaScript values and strings\<close>

text \<open>
  A request body is JSON, so a field of the raw job input is either missing
  (\<open>Undefined\<close>), a string, or a value of some other type (\<open>Other\<close>: a number,
  \<open>null\<close>, a boolean, an object). A JavaScript string is modelled by \<^typ>\<open>string\<close>;
  its characters stand for UTF-16 code units below 256, and \<open>length\<close> is the
  \<open>.length\<close> of the source.
\<close>

datatype jsvalue = Undefined | Str string | Other

text \<open>
  \<open>String.prototype.trim\<close> removes white space and line terminators from both
  ends. Among the code units below 256 these are TAB, LF, VT, FF, CR, SP and NBSP.
\<close>

definition isWhiteSpace :: "char \<Rightarrow> bool" where
  "isWhiteSpace c = (of_char c \<in> {9, 10, 11, 12, 13, 32, 160 :: nat})"

definition trim :: "string \<Rightarrow> string" where
  "trim s = rev (dropWhile isWhiteSpace (rev (dropWhile isWhiteSpace s)))"

section \<open>The validation library\<close>

text \<open>
  The schema of \<open>types.ts\<close> is built with zod (version 3: \<open>z.nativeEnum\<close> with an
  \<open>errorMap\<close>). The part of zod the schema uses is modelled here as the library
  implements it. A parser returns \<open>VALID\<close> with the output value, \<open>DIRTY\<close> with an
  output value and the issues of the failed checks, or \<open>INVALID\<close> (wrong type).
  An issue is its code and the custom message of the source, when there is one.
\<close>

datatype zod_code =
  invalid_type | too_small | too_big | invalid_string | invalid_enum_value
  | invalid_literal | invalid_union

type_synonym problem = "zod_code \<times> string option"

datatype 'a parse_return = VALID 'a | DIRTY 'a "problem list" | INVALID "problem list"

datatype check = Min nat string | Max nat string | Trim | Url string | Uuid string

text \<open>
  \<open>ZodString._parse\<close> walks the checks in the order in which the schema chained
  them. \<open>min\<close> and \<open>max\<close> compare the length of the data as it is when the check is
  reached, \<open>trim\<close> replaces the data by the trimmed data, and no check stops the
  walk. \<open>url\<close> asks whether \<open>new URL(data)\<close> throws and \<open>uuid\<close> matches a regular
  expression: both are parameters (\<open>isUrl\<close>, \<open>isUuid\<close>) of the model.
\<close>

fun run_checks ::
  "(string \<Rightarrow> bool) \<Rightarrow> (string \<Rightarrow> bool) \<Rightarrow> check list \<Rightarrow> string \<Rightarrow> problem list
    \<Rightarrow> string \<times> problem list" where
  "run_checks isUrl isUuid [] data ps = (data, ps)"
| "run_checks isUrl isUuid (Min n msg # cs) data ps =
     run_checks isUrl isUuid cs data
       (if length data < n then ps @ [(too_small, Some msg)] else ps)"
| "run_checks isUrl isUuid (Max n msg # cs) data ps =
     run_checks isUrl isUuid cs data
       (if length data > n then ps @ [(too_big, Some msg)] else ps)"
| "run_checks isUrl isUuid (Trim # cs) data ps =
     run_checks isUrl isUuid cs (trim data) ps"
| "run_checks isUrl isUuid (Url msg # cs) data ps =
     run_checks isUrl isUuid cs data
       (if isUrl data then ps else ps @ [(invalid_string, Some msg)])"
| "run_checks isUrl isUuid (Uuid msg # cs) data ps =
     run_checks isUrl isUuid cs data
       (if isUuid data then ps else ps @ [(invalid_string, Some msg)])"

definition z_string ::
  "(string \<Rightarrow> bool) \<Rightarrow> (string \<Rightarrow> bool) \<Rightarrow> check list \<Rightarrow> jsvalue \<Rightarrow> string parse_return" where
  "z_string isUrl isUuid checks v =
     (case v of
        Str s \<Rightarrow>
          (case run_checks isUrl isUuid checks s [] of
             (d, []) \<Rightarrow> VALID d
           | (d, p # ps) \<Rightarrow> DIRTY d (p # ps))
      | _ \<Rightarrow> INVALID [(invalid_type, None)])"

text \<open>\<open>z.nativeEnum(E, {errorMap})\<close>: every issue carries the message of the map.
  Every value that is not a string of the enum is rejected; the model gives a
  non-string the code \<open>invalid_type\<close>, where zod gives a number the code
  \<open>invalid_enum_value\<close>.\<close>

definition z_nativeEnum :: "string list \<Rightarrow> string \<Rightarrow> jsvalue \<Rightarrow> string parse_return" where
  "z_nativeEnum vals msg v =
     (case v of
        Str s \<Rightarrow> if s \<in> set vals then VALID s else INVALID [(invalid_enum_value, Some msg)]
      | _ \<Rightarrow> INVALID [(invalid_type, Some msg)])"

definition z_literal :: "string \<Rightarrow> jsvalue \<Rightarrow> string parse_return" where
  "z_literal lit v = (if v = Str lit then VALID lit else INVALID [(invalid_literal, None)])"

fun map_parse :: "('a \<Rightarrow> 'b) \<Rightarrow> 'a parse_return \<Rightarrow> 'b parse_return" where
  "map_parse f (VALID x) = VALID (f x)"
| "map_parse f (DIRTY x ps) = DIRTY (f x) ps"
| "map_parse f (INVALID ps) = INVALID ps"

text \<open>\<open>.optional()\<close>: \<open>undefined\<close> is accepted as it is (\<open>None\<close>), anything else goes
  to the inner schema.\<close>

definition z_optional :: "(jsvalue \<Rightarrow> 'a parse_return) \<Rightarrow> jsvalue \<Rightarrow> 'a option parse_return" where
  "z_optional inner v = (case v of Undefined \<Rightarrow> VALID None | _ \<Rightarrow> map_parse Some (inner v))"

text \<open>
  \<open>a.or(b)\<close> is the union of two options. The options are tried in order and the
  first valid result is returned; with none, the first dirty result is returned
  with its issues; with none either, the union reports \<open>invalid_union\<close>.
\<close>

definition z_or ::
  "(jsvalue \<Rightarrow> 'a parse_return) \<Rightarrow> (jsvalue \<Rightarrow> 'a parse_return) \<Rightarrow> jsvalue \<Rightarrow> 'a parse_return" where
  "z_or a b v =
     (case a v of
        VALID x \<Rightarrow> VALID x
      | DIRTY x ps \<Rightarrow> (case b v of VALID y \<Rightarrow> VALID y | _ \<Rightarrow> DIRTY x ps)
      | INVALID ps \<Rightarrow>
          (case b v of
             VALID y \<Rightarrow> VALID y
           | DIRTY y qs \<Rightarrow> DIRTY y qs
           | INVALID qs \<Rightarrow> INVALID [(invalid_union, None)]))"

datatype issue = Issue (path: string) (code: zod_code) (message: "string option")

fun issues_of :: "string \<Rightarrow> 'a parse_return \<Rightarrow> issue list" where
  "issues_of key (VALID x) = []"
| "issues_of key (DIRTY x ps) = map (\<lambda>(c, m). Issue key c m) ps"
| "issues_of key (INVALID ps) = map (\<lambda>(c, m). Issue key c m) ps"

fun value_of :: "'a parse_return \<Rightarrow> 'a option" where
  "value_of (VALID x) = Some x"
| "value_of (DIRTY x ps) = None"
| "value_of (INVALID ps) = None"

section \<open>types.ts: the schema and the sanitizer\<close>

definition JobStatus :: "string list" where
  "JobStatus = [''applied'', ''screening'', ''interview'', ''offer'', ''rejected'']"

definition JobMode :: "string list" where
  "JobMode = [''full-time'', ''part-time'', ''contract'', ''remote'', ''hybrid'']"

text \<open>The raw input: the eleven keys the schema reads (other keys are stripped).\<close>

record raw_input =
  position_in :: jsvalue
  company_in :: jsvalue
  location_in :: jsvalue
  status_in :: jsvalue
  mode_in :: jsvalue
  salaryRange_in :: jsvalue
  jobUrl_in :: jsvalue
  website_in :: jsvalue
  coverLetterUrl_in :: jsvalue
  resumeId_in :: jsvalue
  notes_in :: jsvalue

text \<open>\<open>CreateAndEditJobType\<close>, the output type of the schema; \<open>None\<close> is
  \<open>undefined\<close>.\<close>

record CreateAndEditJobType =
  position_v :: string
  company_v :: string
  location_v :: string
  status_v :: string
  mode_v :: string
  salaryRange_v :: "string option"
  jobUrl_v :: "string option"
  website_v :: "string option"
  coverLetterUrl_v :: "string option"
  resumeId_v :: "string option"
  notes_v :: "string option"

definition position_schema :: "check list" where
  "position_schema =
     [Min 2 ''Position must be at least 2 characters'',
      Max 200 ''Position must not exceed 200 characters'',
      Trim]"

definition company_schema :: "check list" where
  "company_schema =
     [Min 2 ''Company must be at least 2 characters'',
      Max 200 ''Company must not exceed 200 characters'',
      Trim]"

definition location_schema :: "check list" where
  "location_schema =
     [Min 2 ''Location must be at least 2 characters'',
      Max 200 ''Location must not exceed 200 characters'',
      Trim]"

definition salaryRange_schema :: "check list" where
  "salaryRange_schema = [Max 100 ''Salary range must not exceed 100 characters'', Trim]"

definition url_schema :: "check list" where
  "url_schema = [Url ''Please enter a valid URL'', Max 500 ''URL must not exceed 500 characters'']"

definition resumeId_schema :: "check list" where
  "resumeId_schema = [Uuid ''Invalid resume ID format'']"

definition notes_schema :: "check list" where
  "notes_schema = [Max 5000 ''Notes must not exceed 5000 characters'', Trim]"

text \<open>\<open>z.string()...optional().or(z.literal(''))\<close>, the shape of the six optional
  fields.\<close>

definition optional_field ::
  "(string \<Rightarrow> bool) \<Rightarrow> (string \<Rightarrow> bool) \<Rightarrow> check list \<Rightarrow> jsvalue \<Rightarrow> string option parse_return" where
  "optional_field isUrl isUuid checks =
     z_or (z_optional (z_string isUrl isUuid checks))
          (\<lambda>v. map_parse Some (z_literal [] v))"

text \<open>
  \<open>createAndEditJobSchema.parse\<close>: every key is parsed, the issues of all keys are
  collected under the key's name, and \<open>parse\<close> throws the \<open>ZodError\<close> (\<open>Inl\<close>) unless
  every key is valid.
\<close>

definition createAndEditJobSchema_parse ::
  "(string \<Rightarrow> bool) \<Rightarrow> (string \<Rightarrow> bool) \<Rightarrow> raw_input \<Rightarrow> issue list + CreateAndEditJobType" where
  "createAndEditJobSchema_parse isUrl isUuid values =
     (let p1 = z_string isUrl isUuid position_schema (position_in values);
          p2 = z_string isUrl isUuid company_schema (company_in values);
          p3 = z_string isUrl isUuid location_schema (location_in values);
          p4 = z_nativeEnum JobStatus ''Please select a valid status'' (status_in values);
          p5 = z_nativeEnum JobMode ''Please select a valid employment type'' (mode_in values);
          p6 = optional_field isUrl isUuid salaryRange_schema (salaryRange_in values);
          p7 = optional_field isUrl isUuid url_schema (jobUrl_in values);
          p8 = optional_field isUrl isUuid url_schema (website_in values);
          p9 = optional_field isUrl isUuid url_schema (coverLetterUrl_in values);
          p10 = optional_field isUrl isUuid resumeId_schema (resumeId_in values);
          p11 = optional_field isUrl isUuid notes_schema (notes_in values)
      in case (value_of p1, value_of p2, value_of p3, value_of p4, value_of p5, value_of p6,
               value_of p7, value_of p8, value_of p9, value_of p10, value_of p11) of
           (Some a, Some b, Some c, Some d, Some e, Some f, Some g, Some h, Some i, Some j, Some k) \<Rightarrow>
             Inr \<lparr>position_v = a, company_v = b, location_v = c, status_v = d, mode_v = e,
                  salaryRange_v = f, jobUrl_v = g, website_v = h, coverLetterUrl_v = i,
                  resumeId_v = j, notes_v = k\<rparr>
         | _ \<Rightarrow>
             Inl (issues_of ''position'' p1 @ issues_of ''company'' p2 @ issues_of ''location'' p3
                  @ issues_of ''status'' p4 @ issues_of ''mode'' p5 @ issues_of ''salaryRange'' p6
                  @ issues_of ''jobUrl'' p7 @ issues_of ''website'' p8
                  @ issues_of ''coverLetterUrl'' p9 @ issues_of ''resumeId'' p10
                  @ issues_of ''notes'' p11))"

text \<open>The output of \<open>sanitizeJobInput\<close>; here \<open>None\<close> is \<open>null\<close>.\<close>

record sanitized =
  position_s :: string
  company_s :: string
  location_s :: string
  status_s :: string
  mode_s :: string
  salaryRange_s :: "string option"
  jobUrl_s :: "string option"
  website_s :: "string option"
  coverLetterUrl_s :: "string option"
  resumeId_s :: "string option"
  notes_s :: "string option"

text \<open>\<open>x || null\<close> on a value that is a string or \<open>undefined\<close>: the empty string and
  \<open>undefined\<close> are falsy.\<close>

definition or_null :: "string option \<Rightarrow> string option" where
  "or_null x = (case x of None \<Rightarrow> None | Some s \<Rightarrow> if s = [] then None else Some s)"

definition sanitizeJobInput :: "CreateAndEditJobType \<Rightarrow> sanitized" where
  "sanitizeJobInput input =
     \<lparr>position_s = position_v input,
      company_s = company_v input,
      location_s = location_v input,
      status_s = status_v input,
      mode_s = mode_v input,
      salaryRange_s = or_null (salaryRange_v input),
      jobUrl_s = or_null (jobUrl_v input),
      website_s = or_null (website_v input),
      coverLetterUrl_s = or_null (coverLetterUrl_v input),
      resumeId_s = or_null (resumeId_v input),
      notes_s = or_null (notes_v input)\<rparr>"

section \<open>Dates\<close>

text \<open>
  A \<open>Date\<close> is modelled by its civil fields in the time zone of the process: the
  year, the month index (0 is January), the day of the month and the milliseconds
  since midnight. The zone is taken to have a fixed offset, so that the order of two
  instants (\<open>getTime\<close>, the \<open>gte\<close> of a query, \<open>orderBy\<close>) is the lexicographic order
  of their fields.
\<close>

type_synonym date = "int \<times> nat \<times> nat \<times> nat"

definition year :: "date \<Rightarrow> int" where
  "year d = fst d"

definition month :: "date \<Rightarrow> nat" where
  "month d = fst (snd d)"

definition day :: "date \<Rightarrow> nat" where
  "day d = fst (snd (snd d))"

definition millis :: "date \<Rightarrow> nat" where
  "millis d = snd (snd (snd d))"

definition isLeapYear :: "int \<Rightarrow> bool" where
  "isLeapYear y = ((y mod 4 = 0 \<and> y mod 100 \<noteq> 0) \<or> y mod 400 = 0)"

definition daysInMonth :: "int \<Rightarrow> nat \<Rightarrow> nat" where
  "daysInMonth y m =
     (if m = 1 then (if isLeapYear y then 29 else 28)
      else if m \<in> {3, 5, 8, 10} then 30 else 31)"

text \<open>
  \<open>dayjs().subtract(n, "month")\<close>: the month is set to the month index minus \<open>n\<close>
  (\<open>setMonth\<close> carries into the year), the day is the old day capped by the length of
  the new month, the time of the day is kept.
\<close>

definition subtract_month :: "nat \<Rightarrow> date \<Rightarrow> date" where
  "subtract_month n d =
     (let total = year d * 12 + int (month d) - int n;
          y = total div 12;
          m = nat (total mod 12)
      in (y, m, min (day d) (daysInMonth y m), millis d))"

text \<open>\<open>String(n)\<close> for an integer, and \<open>padStart\<close> as dayjs implements it.\<close>

fun String_nat :: "nat \<Rightarrow> string" where
  "String_nat n =
     (if n < 10 then [char_of (48 + n)]
      else String_nat (n div 10) @ [char_of (48 + n mod 10)])"

declare String_nat.simps [simp del]

definition String_int :: "int \<Rightarrow> string" where
  "String_int i = (if i < 0 then CHR ''-'' # String_nat (nat (- i)) else String_nat (nat i))"

definition padStart :: "string \<Rightarrow> nat \<Rightarrow> char \<Rightarrow> string" where
  "padStart s n pad = (if length s \<ge> n then s else replicate (n - length s) pad @ s)"

definition monthsShort :: "string list" where
  "monthsShort =
     [''Jan'', ''Feb'', ''Mar'', ''Apr'', ''May'', ''Jun'',
      ''Jul'', ''Aug'', ''Sep'', ''Oct'', ''Nov'', ''Dec'']"

definition fmt_MMM :: "date \<Rightarrow> string" where
  "fmt_MMM d = monthsShort ! (month d mod 12)"

definition fmt_YY :: "date \<Rightarrow> string" where
  "fmt_YY d = (let s = String_int (year d) in drop (length s - 2) s)"

definition fmt_YYYY :: "date \<Rightarrow> string" where
  "fmt_YYYY d = padStart (String_int (year d)) 4 CHR ''0''"

definition fmt_MM :: "date \<Rightarrow> string" where
  "fmt_MM d = padStart (String_nat (month d + 1)) 2 CHR ''0''"

definition fmt_DD :: "date \<Rightarrow> string" where
  "fmt_DD d = padStart (String_nat (day d)) 2 CHR ''0''"

definition fmt_HH :: "date \<Rightarrow> string" where
  "fmt_HH d = padStart (String_nat (millis d div 3600000)) 2 CHR ''0''"

definition fmt_mm :: "date \<Rightarrow> string" where
  "fmt_mm d = padStart (String_nat (millis d div 60000 mod 60)) 2 CHR ''0''"

text \<open>The four format strings the source uses.\<close>

definition format_MMM_YY :: "date \<Rightarrow> string" where
  "format_MMM_YY d = fmt_MMM d @ '' '' @ fmt_YY d"

definition format_YYYY_MM :: "date \<Rightarrow> string" where
  "format_YYYY_MM d = fmt_YYYY d @ ''-'' @ fmt_MM d"

definition format_DD_MMM_YYYY :: "date \<Rightarrow> string" where
  "format_DD_MMM_YYYY d = fmt_DD d @ ''-'' @ fmt_MMM d @ ''-'' @ fmt_YYYY d"

definition format_DD_MMM_YYYY_HH_mm :: "date \<Rightarrow> string" where
  "format_DD_MMM_YYYY_HH_mm d = format_DD_MMM_YYYY d @ '' '' @ fmt_HH d @ '':'' @ fmt_mm d"

section \<open>The job table and the storage client\<close>

text \<open>\<open>JobType\<close>, a row of the job table (\<open>job_id\<close> and \<open>job_notes\<close> are the fields \<open>id\<close> and \<open>notes\<close>); \<open>None\<close> is
  \<open>null\<close>.\<close>

record JobType =
  job_id :: string
  clerkId :: string
  position :: string
  company :: string
  location :: string
  status :: string
  mode :: string
  appliedDate :: date
  lastContact :: "date option"
  nextFollowUp :: "date option"
  salaryRange :: "string option"
  jobUrl :: "string option"
  website :: "string option"
  resumeId :: "string option"
  coverLetterUrl :: "string option"
  job_notes :: "string option"
  createdAt :: date
  updatedAt :: date

text \<open>
  What a call can throw: the \<open>ZodError\<close> of \<open>parse\<close>, an error of the storage client,
  and the \<open>NEXT_REDIRECT\<close> error that \<open>redirect(path)\<close> throws.
\<close>

datatype error = ZodError "issue list" | PrismaError | NEXT_REDIRECT string

text \<open>
  The database is the list of rows, in table order, together with the schedule of
  the storage faults to come: the n-th entry says whether the n-th call of the
  storage client from now on throws (no entry: it does not).
\<close>

record db =
  rows :: "JobType list"
  faults :: "bool list"

definition faulty :: "db \<Rightarrow> bool" where
  "faulty d = (case faults d of [] \<Rightarrow> False | f # fs \<Rightarrow> f)"

definition tick :: "db \<Rightarrow> db" where
  "tick d = d\<lparr>faults := tl (faults d)\<rparr>"

definition prisma_call ::
  "(JobType list \<Rightarrow> (error + 'a) \<times> JobType list) \<Rightarrow> db \<Rightarrow> (error + 'a) \<times> db" where
  "prisma_call q d =
     (if faulty d then (Inl PrismaError, tick d)
      else (case q (rows d) of (r, rs) \<Rightarrow> (r, (tick d)\<lparr>rows := rs\<rparr>)))"

text \<open>
  What the actions and the storage client read from their surroundings: the user id
  of the session (\<open>auth()\<close>), the two string predicates of the validation library,
  the clock, the id the database gives to the next row, and the database's own
  reading of \<open>{ contains: term, mode: 'insensitive' }\<close> on a text column: whether the
  value of the column (first argument) contains the term (second argument). The
  database decides the case folding and what the characters of the term stand for,
  so the operator is a parameter of the model.
\<close>

record env =
  auth :: "string option"
  isUrl :: "string \<Rightarrow> bool"
  isUuid :: "string \<Rightarrow> bool"
  now :: date
  next_id :: string
  contains_insensitive :: "string \<Rightarrow> string \<Rightarrow> bool"

text \<open>
  The \<open>where\<close> clauses the actions build: the owner always, and optionally the id,
  the search term of the \<open>OR\<close> of two case-insensitive \<open>contains\<close>, the status, and the
  lower bound of the applied date.
\<close>

record JobWhereInput =
  w_id :: "string option"
  w_clerkId :: string
  w_OR :: "string option"
  w_status :: "string option"
  w_appliedDate_gte :: "date option"

definition matches :: "env \<Rightarrow> JobWhereInput \<Rightarrow> JobType \<Rightarrow> bool" where
  "matches e w j =
     ((case w_id w of None \<Rightarrow> True | Some i \<Rightarrow> job_id j = i)
      \<and> clerkId j = w_clerkId w
      \<and> (case w_OR w of None \<Rightarrow> True
          | Some s \<Rightarrow>
              contains_insensitive e (position j) s \<or> contains_insensitive e (company j) s)
      \<and> (case w_status w of None \<Rightarrow> True | Some s \<Rightarrow> status j = s)
      \<and> (case w_appliedDate_gte w of None \<Rightarrow> True | Some t \<Rightarrow> appliedDate j \<ge> t))"

datatype sort_order = Asc | Desc

text \<open>\<open>orderBy: { appliedDate }\<close>. Rows with equal dates keep their table order.\<close>

definition orderBy_appliedDate :: "sort_order \<Rightarrow> JobType list \<Rightarrow> JobType list" where
  "orderBy_appliedDate ord xs =
     (case ord of
        Asc \<Rightarrow> sort_key appliedDate xs
      | Desc \<Rightarrow> rev (sort_key appliedDate (rev xs)))"

text \<open>
  \<open>skip\<close> and \<open>take\<close>: the client rejects a number that does not fit a signed 64-bit
  integer and a negative \<open>skip\<close>; a negative \<open>take\<close> counts from the end of the ordered
  rows.
\<close>

definition int64 :: "int \<Rightarrow> bool" where
  "int64 k = (- 9223372036854775808 \<le> k \<and> k \<le> 9223372036854775807)"

definition paginate :: "int option \<Rightarrow> int option \<Rightarrow> 'a list \<Rightarrow> error + 'a list" where
  "paginate skip tk xs =
     (let s = (case skip of None \<Rightarrow> 0 | Some k \<Rightarrow> k)
      in if s < 0 \<or> \<not> int64 s \<or> (case tk of None \<Rightarrow> False | Some t \<Rightarrow> \<not> int64 t)
         then Inl PrismaError
         else (case tk of
                 None \<Rightarrow> Inr (drop (nat s) xs)
               | Some t \<Rightarrow>
                   if t \<ge> 0 then Inr (take (nat t) (drop (nat s) xs))
                   else Inr (rev (take (nat (- t)) (drop (nat s) (rev xs))))))"

definition prisma_job_findMany ::
  "env \<Rightarrow> JobWhereInput \<Rightarrow> int option \<Rightarrow> int option \<Rightarrow> sort_order \<Rightarrow> db
    \<Rightarrow> (error + JobType list) \<times> db" where
  "prisma_job_findMany e w skip tk ord =
     prisma_call
       (\<lambda>rs. (paginate skip tk (orderBy_appliedDate ord (filter (matches e w) rs)), rs))"

definition prisma_job_count :: "env \<Rightarrow> JobWhereInput \<Rightarrow> db \<Rightarrow> (error + nat) \<times> db" where
  "prisma_job_count e w = prisma_call (\<lambda>rs. (Inr (length (filter (matches e w) rs)), rs))"

text \<open>\<open>groupBy({ by: ["status"], _count: { status: true }, where })\<close>: one group for
  each status that occurs, with the number of its rows.\<close>

definition prisma_job_groupBy_status ::
  "env \<Rightarrow> JobWhereInput \<Rightarrow> db \<Rightarrow> (error + (string \<times> nat) list) \<times> db" where
  "prisma_job_groupBy_status e w =
     prisma_call (\<lambda>rs.
       (let ms = filter (matches e w) rs
        in Inr (map (\<lambda>s. (s, length (filter (\<lambda>j. status j = s) ms))) (remdups (map status ms))),
        rs))"

definition prisma_job_findUnique ::
  "env \<Rightarrow> JobWhereInput \<Rightarrow> db \<Rightarrow> (error + JobType option) \<times> db" where
  "prisma_job_findUnique e w = prisma_call (\<lambda>rs. (Inr (find (matches e w) rs), rs))"

fun remove_first :: "('a \<Rightarrow> bool) \<Rightarrow> 'a list \<Rightarrow> 'a list" where
  "remove_first P [] = []"
| "remove_first P (x # xs) = (if P x then xs else x # remove_first P xs)"

fun replace_first :: "('a \<Rightarrow> bool) \<Rightarrow> 'a \<Rightarrow> 'a list \<Rightarrow> 'a list" where
  "replace_first P y [] = []"
| "replace_first P y (x # xs) = (if P x then y # xs else x # replace_first P y xs)"

text \<open>\<open>delete\<close> and \<open>update\<close> throw when no row matches the \<open>where\<close> clause.\<close>

definition prisma_job_delete ::
  "env \<Rightarrow> JobWhereInput \<Rightarrow> db \<Rightarrow> (error + JobType) \<times> db" where
  "prisma_job_delete e w =
     prisma_call (\<lambda>rs.
       case find (matches e w) rs of
         None \<Rightarrow> (Inl PrismaError, rs)
       | Some j \<Rightarrow> (Inr j, remove_first (matches e w) rs))"

text \<open>
  Modelled from the spec: the table definition (prisma/schema.prisma) is not among
  the sources. \<open>update\<close> replaces the fields of the data and, as the spec's
  last-updated timestamp, sets \<open>updatedAt\<close>. \<open>create\<close> "assigns creation/update
  timestamps" and an id, which is unique; the applied date, which the data does not
  carry, defaults to the time of creation, and the two contact dates to \<open>null\<close>.
\<close>

definition prisma_job_update ::
  "env \<Rightarrow> JobWhereInput \<Rightarrow> sanitized \<Rightarrow> db \<Rightarrow> (error + JobType) \<times> db" where
  "prisma_job_update e w data =
     prisma_call (\<lambda>rs.
       case find (matches e w) rs of
         None \<Rightarrow> (Inl PrismaError, rs)
       | Some j \<Rightarrow>
           (let j' = j\<lparr>position := position_s data, company := company_s data,
                       location := location_s data, status := status_s data,
                       mode := mode_s data, salaryRange := salaryRange_s data,
                       jobUrl := jobUrl_s data, website := website_s data,
                       resumeId := resumeId_s data,
                       coverLetterUrl := coverLetterUrl_s data, job_notes := notes_s data,
                       updatedAt := now e\<rparr>
            in (Inr j', replace_first (matches e w) j' rs)))"

definition prisma_job_create ::
  "env \<Rightarrow> sanitized \<Rightarrow> string \<Rightarrow> db \<Rightarrow> (error + JobType) \<times> db" where
  "prisma_job_create e data userId =
     prisma_call (\<lambda>rs.
       if next_id e \<in> job_id ` set rs then (Inl PrismaError, rs)
       else
         (let j = \<lparr>job_id = next_id e, clerkId = userId,
                   position = position_s data, company = company_s data,
                   location = location_s data, status = status_s data, mode = mode_s data,
                   appliedDate = now e, lastContact = None, nextFollowUp = None,
                   salaryRange = salaryRange_s data, jobUrl = jobUrl_s data,
                   website = website_s data, resumeId = resumeId_s data,
                   coverLetterUrl = coverLetterUrl_s data, job_notes = notes_s data,
                   createdAt = now e, updatedAt = now e\<rparr>
          in (Inr j, rs @ [j])))"

section \<open>actions.ts: the server actions\<close>

text \<open>
  An action takes the database and returns what its caller sees, \<open>Inr\<close> the returned
  value or \<open>Inl\<close> the error that leaves the action, together with the database after
  the call. A \<open>try\<close>/\<open>catch\<close> is the case distinction on the result of the guarded
  calls. Logging and \<open>revalidatePath\<close> are not modelled.
\<close>

definition authenticateAndRedirect :: "string option \<Rightarrow> error + string" where
  "authenticateAndRedirect userId =
     (case userId of
        None \<Rightarrow> Inl (NEXT_REDIRECT ''/'')
      | Some u \<Rightarrow> if u = [] then Inl (NEXT_REDIRECT ''/'') else Inr u)"

definition owner_where :: "string \<Rightarrow> JobWhereInput" where
  "owner_where userId =
     \<lparr>w_id = None, w_clerkId = userId, w_OR = None, w_status = None,
      w_appliedDate_gte = None\<rparr>"

definition createJobAction :: "env \<Rightarrow> raw_input \<Rightarrow> db \<Rightarrow> (error + JobType option) \<times> db" where
  "createJobAction e values d =
     (case authenticateAndRedirect (auth e) of
        Inl err \<Rightarrow> (Inl err, d)
      | Inr userId \<Rightarrow>
          (case createAndEditJobSchema_parse (isUrl e) (isUuid e) values of
             Inl issues \<Rightarrow> (Inr None, d)
           | Inr validatedData \<Rightarrow>
               (let sanitizedData = sanitizeJobInput validatedData
                in case prisma_job_create e sanitizedData userId d of
                     (Inl err, d') \<Rightarrow> (Inr None, d')
                   | (Inr job, d') \<Rightarrow> (Inr (Some job), d'))))"

record GetAllJobsActionTypes =
  search :: "string option"
  jobStatus :: "string option"
  page :: "int option"
  limit :: "int option"

text \<open>
  A JavaScript number that holds \<open>Math.ceil(count / limit)\<close>: an integer, or what
  the division by zero gives. \<open>page\<close> and \<open>limit\<close> are integers in the model and
  its products are exact, as those of JavaScript are up to 2^53 - 1.
\<close>

datatype jsnumber = Num int | Infinity | NaN

definition Math_ceil_div :: "nat \<Rightarrow> int \<Rightarrow> jsnumber" where
  "Math_ceil_div c l =
     (if l = 0 then (if c = 0 then NaN else Infinity)
      else Num \<lceil>real c / real_of_int l\<rceil>)"

record jobs_result =
  jobs_of :: "JobType list"
  count_of :: nat
  page_of :: int
  totalPages_of :: jsnumber

definition getAllJobsAction ::
  "env \<Rightarrow> GetAllJobsActionTypes \<Rightarrow> db \<Rightarrow> (error + jobs_result) \<times> db" where
  "getAllJobsAction e args d =
     (case authenticateAndRedirect (auth e) of
        Inl err \<Rightarrow> (Inl err, d)
      | Inr userId \<Rightarrow>
          (let pg = (case page args of None \<Rightarrow> 1 | Some p \<Rightarrow> p);
               lim = (case limit args of None \<Rightarrow> 10 | Some l \<Rightarrow> l);
               whereClause0 = owner_where userId;
               whereClause1 =
                 (case search args of
                    None \<Rightarrow> whereClause0
                  | Some s \<Rightarrow> if s \<noteq> [] then whereClause0\<lparr>w_OR := Some s\<rparr> else whereClause0);
               whereClause =
                 (case jobStatus args of
                    None \<Rightarrow> whereClause1
                  | Some s \<Rightarrow>
                      if s \<noteq> [] \<and> s \<noteq> ''all'' then whereClause1\<lparr>w_status := Some s\<rparr>
                      else whereClause1);
               skip = (pg - 1) * lim;
               failed = \<lparr>jobs_of = [], count_of = 0, page_of = 1, totalPages_of = Num 0\<rparr>
           in case prisma_job_findMany e whereClause (Some skip) (Some lim) Desc d of
                (Inl err, d1) \<Rightarrow> (Inr failed, d1)
              | (Inr jobs, d1) \<Rightarrow>
                  (case prisma_job_count e whereClause d1 of
                     (Inl err, d2) \<Rightarrow> (Inr failed, d2)
                   | (Inr cnt, d2) \<Rightarrow>
                       (Inr \<lparr>jobs_of = jobs, count_of = cnt, page_of = pg,
                             totalPages_of = Math_ceil_div cnt lim\<rparr>, d2))))"

definition id_where :: "string \<Rightarrow> string \<Rightarrow> JobWhereInput" where
  "id_where i userId = (owner_where userId)\<lparr>w_id := Some i\<rparr>"

definition deleteJobAction :: "env \<Rightarrow> string \<Rightarrow> db \<Rightarrow> (error + JobType option) \<times> db" where
  "deleteJobAction e i d =
     (case authenticateAndRedirect (auth e) of
        Inl err \<Rightarrow> (Inl err, d)
      | Inr userId \<Rightarrow>
          (case prisma_job_delete e (id_where i userId) d of
             (Inl err, d') \<Rightarrow> (Inr None, d')
           | (Inr job, d') \<Rightarrow> (Inr (Some job), d')))"

text \<open>
  \<open>getSingleJobAction\<close>: the \<open>redirect\<close> of the \<open>try\<close> block throws inside the block, so
  the \<open>catch\<close> block runs and redirects again; a storage error reaches the same
  \<open>catch\<close> block.
\<close>

definition getSingleJobAction :: "env \<Rightarrow> string \<Rightarrow> db \<Rightarrow> (error + JobType) \<times> db" where
  "getSingleJobAction e i d =
     (case authenticateAndRedirect (auth e) of
        Inl err \<Rightarrow> (Inl err, d)
      | Inr userId \<Rightarrow>
          (case prisma_job_findUnique e (id_where i userId) d of
             (Inl err, d') \<Rightarrow> (Inl (NEXT_REDIRECT ''/jobs''), d')
           | (Inr None, d') \<Rightarrow> (Inl (NEXT_REDIRECT ''/jobs''), d')
           | (Inr (Some job), d') \<Rightarrow> (Inr job, d')))"

definition updateJobAction ::
  "env \<Rightarrow> string \<Rightarrow> raw_input \<Rightarrow> db \<Rightarrow> (error + JobType option) \<times> db" where
  "updateJobAction e i values d =
     (case authenticateAndRedirect (auth e) of
        Inl err \<Rightarrow> (Inl err, d)
      | Inr userId \<Rightarrow>
          (case createAndEditJobSchema_parse (isUrl e) (isUuid e) values of
             Inl issues \<Rightarrow> (Inr None, d)
           | Inr validatedData \<Rightarrow>
               (let sanitizedData = sanitizeJobInput validatedData
                in case prisma_job_update e (id_where i userId) sanitizedData d of
                     (Inl err, d') \<Rightarrow> (Inr None, d')
                   | (Inr job, d') \<Rightarrow> (Inr (Some job), d'))))"

text \<open>
  \<open>getStatsAction\<close>: the groups are folded into an object keyed by status, which is
  spread over the object of the five zero counts.
\<close>

definition getStatsAction :: "env \<Rightarrow> db \<Rightarrow> (error + (string \<rightharpoonup> nat)) \<times> db" where
  "getStatsAction e d =
     (case authenticateAndRedirect (auth e) of
        Inl err \<Rightarrow> (Inl err, d)
      | Inr userId \<Rightarrow>
          (case prisma_job_groupBy_status e (owner_where userId) d of
             (Inl err, d') \<Rightarrow> (Inl (NEXT_REDIRECT ''/jobs''), d')
           | (Inr stats, d') \<Rightarrow>
               (let statsObject = foldl (\<lambda>acc curr. acc(fst curr \<mapsto> snd curr)) Map.empty stats;
                    defaultStats =
                      [''applied'' \<mapsto> 0, ''screening'' \<mapsto> 0, ''interview'' \<mapsto> 0,
                       ''offer'' \<mapsto> 0, ''rejected'' \<mapsto> 0] ++ statsObject
                in (Inr defaultStats, d'))))"

text \<open>The body of the \<open>reduce\<close> of \<open>getChartsDataAction\<close>: the first entry with the
  job's label is incremented in place, or a new entry is pushed.\<close>

fun increment_entry :: "string \<Rightarrow> (string \<times> nat) list \<Rightarrow> (string \<times> nat) list" where
  "increment_entry date [] = []"
| "increment_entry date (entry # acc) =
     (if fst entry = date then (fst entry, snd entry + 1) # acc
      else entry # increment_entry date acc)"

definition count_month :: "(string \<times> nat) list \<Rightarrow> JobType \<Rightarrow> (string \<times> nat) list" where
  "count_month acc job =
     (let date = format_MMM_YY (appliedDate job)
      in if find (\<lambda>entry. fst entry = date) acc \<noteq> None then increment_entry date acc
         else acc @ [(date, 1)])"

definition getChartsDataAction :: "env \<Rightarrow> db \<Rightarrow> (error + (string \<times> nat) list) \<times> db" where
  "getChartsDataAction e d =
     (case authenticateAndRedirect (auth e) of
        Inl err \<Rightarrow> (Inl err, d)
      | Inr userId \<Rightarrow>
          (let sixMonthsAgo = subtract_month 6 (now e)
           in case prisma_job_findMany e
                     ((owner_where userId)\<lparr>w_appliedDate_gte := Some sixMonthsAgo\<rparr>)
                     None None Asc d of
                (Inl err, d') \<Rightarrow> (Inl (NEXT_REDIRECT ''/jobs''), d')
              | (Inr jobs, d') \<Rightarrow> (Inr (foldl count_month [] jobs), d')))"

definition getAllJobsForDownloadAction :: "env \<Rightarrow> db \<Rightarrow> (error + JobType list) \<times> db" where
  "getAllJobsForDownloadAction e d =
     (case authenticateAndRedirect (auth e) of
        Inl err \<Rightarrow> (Inl err, d)
      | Inr userId \<Rightarrow>
          (case prisma_job_findMany e (owner_where userId) None None Desc d of
             (Inl err, d') \<Rightarrow> (Inr [], d')
           | (Inr jobs, d') \<Rightarrow> (Inr jobs, d')))"

section \<open>DownloadDropdown.tsx: the export\<close>

text \<open>
  The two generators build the content of the file from the jobs of
  \<open>getAllJobsForDownloadAction\<close> and the current time; the download through the
  browser and the binary encoding of the workbook are not modelled. Both compute
  the same heading and the same order.
\<close>

definition newline :: string where
  "newline = [CHR 0x0A]"

definition dquote :: string where
  "dquote = [CHR 0x22]"

definition toUpper :: "char \<Rightarrow> char" where
  "toUpper c =
     (if 97 \<le> (of_char c :: nat) \<and> (of_char c :: nat) \<le> 122 then char_of (of_char c - 32 :: nat)
      else c)"

text \<open>\<open>s.charAt(0).toUpperCase() + s.slice(1)\<close>, for a status in ASCII.\<close>

definition capitalize :: "string \<Rightarrow> string" where
  "capitalize s = map toUpper (take 1 s) @ drop 1 s"

definition headingText :: "JobType list \<Rightarrow> date \<Rightarrow> string" where
  "headingText jobs today =
     (let totalApplied = length jobs;
          declined = length (filter (\<lambda>j. status j = ''declined'') jobs);
          interview = length (filter (\<lambda>j. status j = ''interview'') jobs);
          pending = length (filter (\<lambda>j. status j = ''pending'') jobs);
          generatedAt = format_DD_MMM_YYYY_HH_mm today
      in ''Total Applied: '' @ String_nat totalApplied @ '', Declined: '' @ String_nat declined
         @ '', Interview: '' @ String_nat interview @ '', Pending: '' @ String_nat pending
         @ ''      Report Generated: '' @ generatedAt)"

text \<open>\<open>[...jobs].sort((a, b) => b.createdAt - a.createdAt)\<close>; the sort of an array is
  stable.\<close>

definition sort_newest_first :: "JobType list \<Rightarrow> JobType list" where
  "sort_newest_first jobs = rev (sort_key createdAt (rev jobs))"

text \<open>The body of the \<open>forEach\<close> of \<open>downloadAsCSV\<close>, on the three variables it
  updates: \<open>csvContent\<close>, \<open>serial\<close> and \<open>lastMonthKey\<close>.\<close>

definition csv_each :: "string \<times> nat \<times> string \<Rightarrow> JobType \<Rightarrow> string \<times> nat \<times> string" where
  "csv_each st job =
     (case st of (csvContent, serial, lastMonthKey) \<Rightarrow>
        (let appliedDate = format_DD_MMM_YYYY (createdAt job);
             monthKey = format_YYYY_MM (createdAt job);
             jobTitle = dquote @ position job @ dquote;
             company = dquote @ company job @ dquote;
             location = dquote @ location job @ dquote;
             role =
               (if mode job = ''full-time'' then ''Full Time''
                else if mode job = ''part-time'' then ''Part Time''
                else ''Internship'');
             status = capitalize (status job);
             csvContent' =
               (if lastMonthKey \<noteq> [] \<and> monthKey \<noteq> lastMonthKey then csvContent @ newline
                else csvContent)
         in (csvContent' @ String_nat serial @ '','' @ appliedDate @ '','' @ jobTitle @ '',''
               @ company @ '','' @ location @ '','' @ role @ '','' @ status @ newline,
             serial + 1, monthKey)))"

definition downloadAsCSV :: "JobType list \<Rightarrow> date \<Rightarrow> string" where
  "downloadAsCSV jobs today =
     (let sorted = sort_newest_first jobs;
          csvContent =
            ''Job Application History'' @ newline @ dquote @ headingText jobs today @ dquote
            @ newline @ newline
            @ ''No.,Applied Date,Job Title,Company Name,Job Location,Role,Status'' @ newline
      in fst (foldl csv_each (csvContent, 1, []) sorted))"

text \<open>A cell of the worksheet is a string or a number; a row is the list of its
  cells.\<close>

datatype cell = Text string | Number nat

definition excel_each ::
  "cell list list \<times> nat \<times> string \<Rightarrow> JobType \<Rightarrow> cell list list \<times> nat \<times> string" where
  "excel_each st job =
     (case st of (rws, serial, lastMonthKey) \<Rightarrow>
        (let appliedDate = format_DD_MMM_YYYY (createdAt job);
             monthKey = format_YYYY_MM (createdAt job);
             role =
               (if mode job = ''full-time'' then ''Full Time''
                else if mode job = ''part-time'' then ''Part Time''
                else ''Internship'');
             status = capitalize (status job);
             rws' =
               (if lastMonthKey \<noteq> [] \<and> monthKey \<noteq> lastMonthKey then rws @ [ []] else rws)
         in (rws' @ [ [Number serial, Text appliedDate, Text (position job), Text (company job),
                      Text (location job), Text role, Text status]],
             serial + 1, monthKey)))"

definition downloadAsExcel :: "JobType list \<Rightarrow> date \<Rightarrow> cell list list" where
  "downloadAsExcel jobs today =
     (let sorted = sort_newest_first jobs;
          rws =
            [ [Text ''Job Application History''],
             [Text (headingText jobs today)],
             [],
             [Text ''No.'', Text ''Applied Date'', Text ''Job Title'', Text ''Company Name'',
              Text ''Job Location'', Text ''Role'', Text ''Status'']]
      in fst (foldl excel_each (rws, 1, []) sorted))"

section \<open>Notions of the specification\<close>

text \<open>The six optional fields, in one order, as the raw input, the sanitized record
  and a stored row carry them.\<close>

definition optional_inputs :: "raw_input \<Rightarrow> jsvalue list" where
  "optional_inputs values =
     [salaryRange_in values, jobUrl_in values, website_in values, coverLetterUrl_in values,
      resumeId_in values, notes_in values]"

definition optional_outputs :: "sanitized \<Rightarrow> string option list" where
  "optional_outputs s =
     [salaryRange_s s, jobUrl_s s, website_s s, coverLetterUrl_s s, resumeId_s s, notes_s s]"

definition optional_columns :: "JobType \<Rightarrow> string option list" where
  "optional_columns j =
     [salaryRange j, jobUrl j, website j, coverLetterUrl j, resumeId j, job_notes j]"

subsection \<open>Reading numerals back\<close>

text \<open>
  The inverse of \<open>String_nat\<close> and of the zero-padded \<open>String_int\<close>, used to show
  that two timestamps have the same month key only when they lie in the same month
  of the same year.
\<close>

definition is_digit :: "char \<Rightarrow> bool" where
  "is_digit c = (48 \<le> (of_char c :: nat) \<and> (of_char c :: nat) \<le> 57)"

definition nat_of_string :: "string \<Rightarrow> nat" where
  "nat_of_string s = foldl (\<lambda>a c. 10 * a + (of_char c - 48)) 0 s"

definition int_of_string :: "string \<Rightarrow> int" where
  "int_of_string s =
     (case dropWhile (\<lambda>c. c = CHR ''0'') s of
        [] \<Rightarrow> 0
      | c # r \<Rightarrow> if c = CHR ''-'' then - int (nat_of_string r) else int (nat_of_string (c # r)))"

subsection \<open>The layout of the export\<close>

text \<open>
  The month of a row of the export is the year and the month of its creation
  timestamp. The lines below the header, as the specification words them: the i-th
  job gives the data row numbered i + 1, and a separator stands before it exactly
  when it is not the first and its month differs from the month of the job before.
\<close>

definition created_month :: "JobType \<Rightarrow> int \<times> nat" where
  "created_month j = (year (createdAt j), month (createdAt j))"

datatype line = Separator | DataRow nat JobType

definition layout :: "JobType list \<Rightarrow> line list" where
  "layout js =
     concat (map (\<lambda>i. (if 0 < i \<and> created_month (js ! i) \<noteq> created_month (js ! (i - 1))
                         then [Separator] else [])
                        @ [DataRow (i + 1) (js ! i)])
                 [0..<length js])"

text \<open>The Role column, as claim C10 words it.\<close>

definition role_of_mode :: "string \<Rightarrow> string" where
  "role_of_mode m =
     (if m = ''full-time'' then ''Full Time''
      else if m = ''part-time'' then ''Part Time''
      else ''Internship'')"

fun join_comma :: "string list \<Rightarrow> string" where
  "join_comma [] = []"
| "join_comma [s] = s"
| "join_comma (s # t # ss) = s @ '','' @ join_comma (t # ss)"

definition csv_fields :: "nat \<Rightarrow> JobType \<Rightarrow> string list" where
  "csv_fields n j =
     [String_nat n, format_DD_MMM_YYYY (createdAt j), dquote @ position j @ dquote,
      dquote @ company j @ dquote, dquote @ location j @ dquote, role_of_mode (mode j),
      capitalize (status j)]"

fun csv_line :: "line \<Rightarrow> string" where
  "csv_line Separator = newline"
| "csv_line (DataRow n j) = join_comma (csv_fields n j) @ newline"

fun excel_line :: "line \<Rightarrow> cell list" where
  "excel_line Separator = []"
| "excel_line (DataRow n j) =
     [Number n, Text (format_DD_MMM_YYYY (createdAt j)), Text (position j), Text (company j),
      Text (location j), Text (role_of_mode (mode j)), Text (capitalize (status j))]"

definition csv_header :: "JobType list \<Rightarrow> date \<Rightarrow> string" where
  "csv_header jobs today =
     ''Job Application History'' @ newline @ dquote @ headingText jobs today @ dquote
     @ newline @ newline
     @ ''No.,Applied Date,Job Title,Company Name,Job Location,Role,Status'' @ newline"

definition excel_header :: "JobType list \<Rightarrow> date \<Rightarrow> cell list list" where
  "excel_header jobs today =
     [ [Text ''Job Application History''],
      [Text (headingText jobs today)],
      [],
      [Text ''No.'', Text ''Applied Date'', Text ''Job Title'', Text ''Company Name'',
       Text ''Job Location'', Text ''Role'', Text ''Status'']]"

subsection \<open>Views and filters\<close>

text \<open>
  Two databases look the same to an owner when they hold the same rows of that owner,
  in the same order, and the same schedule of faults.
\<close>

definition same_view :: "string \<Rightarrow> db \<Rightarrow> db \<Rightarrow> bool" where
  "same_view a d d' =
     (filter (\<lambda>j. clerkId j = a) (rows d) = filter (\<lambda>j. clerkId j = a) (rows d')
      \<and> faults d = faults d')"

text \<open>
  The \<open>where\<close> clause, the defaults and the fallback of \<open>getAllJobsAction\<close>, named so
  that theorems can speak of them, and the number of rows of an owner in a status.
\<close>

definition list_where :: "string \<Rightarrow> GetAllJobsActionTypes \<Rightarrow> JobWhereInput" where
  "list_where a args =
     \<lparr>w_id = None, w_clerkId = a,
      w_OR = (case search args of None \<Rightarrow> None | Some s \<Rightarrow> if s \<noteq> [] then Some s else None),
      w_status =
        (case jobStatus args of
           None \<Rightarrow> None
         | Some s \<Rightarrow> if s \<noteq> [] \<and> s \<noteq> ''all'' then Some s else None),
      w_appliedDate_gte = None\<rparr>"

definition failed_result :: jobs_result where
  "failed_result = \<lparr>jobs_of = [], count_of = 0, page_of = 1, totalPages_of = Num 0\<rparr>"

definition page_or_default :: "GetAllJobsActionTypes \<Rightarrow> int" where
  "page_or_default args = (case page args of None \<Rightarrow> 1 | Some p \<Rightarrow> p)"

definition limit_or_default :: "GetAllJobsActionTypes \<Rightarrow> int" where
  "limit_or_default args = (case limit args of None \<Rightarrow> 10 | Some l \<Rightarrow> l)"

definition status_count :: "string \<Rightarrow> JobType list \<Rightarrow> string \<Rightarrow> nat" where
  "status_count a rs s = length (filter (\<lambda>j. clerkId j = a \<and> status j = s) rs)"



subsection \<open>The monthly trend\<close>

text \<open>
  The rows of an owner inside the window, the month of an applied date and its
  label, the elements of a list in the order in which they are first seen, and the
  tally of a list: each element once, in that order, with its number of occurrences.
\<close>

definition included :: "string \<Rightarrow> date \<Rightarrow> JobType list \<Rightarrow> JobType list" where
  "included a cutoff rs = filter (\<lambda>j. clerkId j = a \<and> cutoff \<le> appliedDate j) rs"

definition applied_month :: "JobType \<Rightarrow> int \<times> nat" where
  "applied_month j = (year (appliedDate j), month (appliedDate j))"

definition month_label :: "int \<times> nat \<Rightarrow> string" where
  "month_label ym =
     monthsShort ! (snd ym mod 12) @ '' ''
     @ (let s = String_int (fst ym) in drop (length s - 2) s)"

definition first_seen :: "'a list \<Rightarrow> 'a list" where
  "first_seen xs = foldl (\<lambda>acc x. if x \<in> set acc then acc else acc @ [x]) [] xs"

definition tally :: "'a list \<Rightarrow> ('a \<times> nat) list" where
  "tally ls = map (\<lambda>l. (l, count_list ls l)) (first_seen ls)"

section \<open>Sample data\<close>

text \<open>
  An environment, rows and inputs on which the theorems below are run. The sample
  operator reads the search term letter by letter, folding the case of ASCII
  letters; the theorems hold for every operator.
\<close>

definition toLower :: "char \<Rightarrow> char" where
  "toLower c =
     (if 65 \<le> (of_char c :: nat) \<and> (of_char c :: nat) \<le> 90 then char_of (of_char c + 32 :: nat)
      else c)"

fun contains :: "string \<Rightarrow> string \<Rightarrow> bool" where
  "contains [] sub = (sub = [])"
| "contains (c # cs) sub = (take (length sub) (c # cs) = sub \<or> contains cs sub)"

definition literal_contains_insensitive :: "string \<Rightarrow> string \<Rightarrow> bool" where
  "literal_contains_insensitive v s = contains (map toLower v) (map toLower s)"

definition sample_env :: env where
  "sample_env =
     \<lparr>auth = Some ''user_A'', isUrl = (\<lambda>s. take 8 s = ''https://''),
      isUuid = (\<lambda>s. length s = 36), now = (2025, 10, 2, 0), next_id = ''job_9'',
      contains_insensitive = literal_contains_insensitive\<rparr>"

definition sample_job :: "string \<Rightarrow> string \<Rightarrow> string \<Rightarrow> string \<Rightarrow> date \<Rightarrow> JobType" where
  "sample_job i owner st md t =
     \<lparr>job_id = i, clerkId = owner, position = ''Engineer'', company = ''Acme'',
      location = ''Paris'', status = st, mode = md, appliedDate = t, lastContact = None,
      nextFollowUp = None, salaryRange = None, jobUrl = None, website = None,
      resumeId = None, coverLetterUrl = None, job_notes = None, createdAt = t,
      updatedAt = t\<rparr>"

definition sample_input :: "string \<Rightarrow> raw_input" where
  "sample_input pos =
     \<lparr>position_in = Str pos, company_in = Str ''Acme'', location_in = Str ''Paris'',
      status_in = Str ''applied'', mode_in = Str ''remote'', salaryRange_in = Str [],
      jobUrl_in = Str [], website_in = Str [], coverLetterUrl_in = Str [],
      resumeId_in = Str [], notes_in = Str []\<rparr>"

definition sample_rows :: "JobType list" where
  "sample_rows =
     [sample_job ''job_1'' ''user_A'' ''applied'' ''hybrid'' (2025, 9, 5, 0),
      sample_job ''job_2'' ''user_B'' ''offer'' ''remote'' (2025, 9, 10, 0),
      sample_job ''job_3'' ''user_A'' ''applied'' ''full-time'' (2025, 9, 20, 0),
      sample_job ''job_4'' ''user_A'' ''offer'' ''part-time'' (2025, 8, 30, 0)]"


definition sample_history :: "JobType list" where
  "sample_history =
     sample_rows
     @ [sample_job ''job_5'' ''user_A'' ''rejected'' ''contract'' (2025, 3, 2, 0),
        sample_job ''job_6'' ''user_A'' ''screening'' ''remote'' (2025, 4, 2, 0)]"

section \<open>Verified properties\<close>

subsection \<open>Validation and sanitization\<close>

lemma trim_Nil: "trim [] = []"
  by (simp add: trim_def)

lemma run_checks_Nil_data: "fst (run_checks u v cs [] ps) = []"
  by (induction u v cs "[] :: string" ps rule: run_checks.induct) (simp_all add: trim_Nil)

lemma optional_field_empty: "optional_field u v cs (Str []) = VALID (Some [])"
proof -
  obtain d ps where r: "run_checks u v cs [] [] = (d, ps)"
    by (cases "run_checks u v cs [] []")
  with run_checks_Nil_data [of u v cs "[]"] have "d = []" by simp
  with r show ?thesis
    by (cases ps)
      (simp_all add: optional_field_def z_or_def z_optional_def z_string_def z_literal_def)
qed

lemma or_null_not_empty: "or_null x \<noteq> Some []"
  by (simp add: or_null_def split: option.splits)

lemma or_null_of_empty_input:
  assumes "optional_field u v cs input = VALID y" and "input = Str []"
  shows "or_null y = None"
  using assms by (auto simp: optional_field_empty or_null_def)

text \<open>When \<open>parse\<close> returns, every key was valid and the record holds the outputs.\<close>

lemma parse_Inr_fields:
  assumes "createAndEditJobSchema_parse u v values = Inr x"
  shows "optional_field u v salaryRange_schema (salaryRange_in values) = VALID (salaryRange_v x)"
    and "optional_field u v url_schema (jobUrl_in values) = VALID (jobUrl_v x)"
    and "optional_field u v url_schema (website_in values) = VALID (website_v x)"
    and "optional_field u v url_schema (coverLetterUrl_in values) = VALID (coverLetterUrl_v x)"
    and "optional_field u v resumeId_schema (resumeId_in values) = VALID (resumeId_v x)"
    and "optional_field u v notes_schema (notes_in values) = VALID (notes_v x)"
    and "z_string u v position_schema (position_in values) = VALID (position_v x)"
    and "z_string u v company_schema (company_in values) = VALID (company_v x)"
    and "z_string u v location_schema (location_in values) = VALID (location_v x)"
    and "z_nativeEnum JobStatus ''Please select a valid status'' (status_in values)
          = VALID (status_v x)"
    and "z_nativeEnum JobMode ''Please select a valid employment type'' (mode_in values)
          = VALID (mode_v x)"
  using assms
  unfolding createAndEditJobSchema_parse_def Let_def
  by (auto split: option.splits elim!: value_of.elims)

lemma sanitized_optional_outputs:
  assumes "createAndEditJobSchema_parse u v values = Inr x" and "i < 6"
  shows "optional_outputs (sanitizeJobInput x) ! i \<noteq> Some []"
    and "optional_inputs values ! i = Str [] \<Longrightarrow>
           optional_outputs (sanitizeJobInput x) ! i = None"
proof -
  note f = parse_Inr_fields(1-6) [OF assms(1)]
  note defs = optional_outputs_def optional_inputs_def sanitizeJobInput_def
  from \<open>i < 6\<close> consider "i = 0" | "i = 1" | "i = 2" | "i = 3" | "i = 4" | "i = 5" by arith
  then show "optional_outputs (sanitizeJobInput x) ! i \<noteq> Some []"
    by cases (simp_all add: optional_outputs_def sanitizeJobInput_def or_null_not_empty)
  assume e: "optional_inputs values ! i = Str []"
  from \<open>i < 6\<close> consider "i = 0" | "i = 1" | "i = 2" | "i = 3" | "i = 4" | "i = 5" by arith
  then show "optional_outputs (sanitizeJobInput x) ! i = None"
  proof cases
    case 1
    with e f(1) show ?thesis by (simp add: defs or_null_of_empty_input)
  next
    case 2
    with e f(2) show ?thesis by (simp add: defs or_null_of_empty_input)
  next
    case 3
    with e f(3) show ?thesis by (simp add: defs or_null_of_empty_input)
  next
    case 4
    with e f(4) show ?thesis by (simp add: defs or_null_of_empty_input)
  next
    case 5
    with e f(5) show ?thesis by (simp add: defs or_null_of_empty_input)
  next
    case 6
    with e f(6) show ?thesis by (simp add: defs or_null_of_empty_input)
  qed
qed

subsection \<open>What create and update store\<close>

lemma prisma_job_create_result:
  assumes "prisma_job_create e data userId d = (Inr job, d')"
  shows "optional_columns job = optional_outputs data" and "job \<in> set (rows d')"
    and "clerkId job = userId" and "position job = position_s data"
    and "company job = company_s data" and "location job = location_s data"
  using assms
  unfolding prisma_job_create_def prisma_call_def optional_columns_def optional_outputs_def
    Let_def
  by (auto split: if_splits)

lemma replace_first_mem: "find P xs \<noteq> None \<Longrightarrow> y \<in> set (replace_first P y xs)"
  by (induction xs) auto

lemma prisma_job_update_result:
  assumes "prisma_job_update e w data d = (Inr job, d')"
  shows "optional_columns job = optional_outputs data" and "job \<in> set (rows d')"
    and "position job = position_s data"
    and "company job = company_s data" and "location job = location_s data"
proof -
  from assms show "optional_columns job = optional_outputs data"
    unfolding prisma_job_update_def prisma_call_def optional_columns_def optional_outputs_def
      Let_def
    by (auto split: if_splits option.splits)
  from assms show "job \<in> set (rows d')"
    unfolding prisma_job_update_def prisma_call_def Let_def
    by (auto split: if_splits option.splits intro!: replace_first_mem)
  from assms show "position job = position_s data" "company job = company_s data"
    "location job = location_s data"
    unfolding prisma_job_update_def prisma_call_def Let_def
    by (auto split: if_splits option.splits)
qed

lemma createJobAction_Some:
  assumes "createJobAction e values d = (Inr (Some job), d')"
  shows "\<exists>x. createAndEditJobSchema_parse (isUrl e) (isUuid e) values = Inr x
            \<and> optional_columns job = optional_outputs (sanitizeJobInput x)
            \<and> position job = position_s (sanitizeJobInput x)
            \<and> company job = company_s (sanitizeJobInput x)
            \<and> location job = location_s (sanitizeJobInput x)
            \<and> job \<in> set (rows d')"
  using assms unfolding createJobAction_def Let_def
  by (auto split: sum.splits prod.splits dest: prisma_job_create_result)

lemma updateJobAction_Some:
  assumes "updateJobAction e i values d = (Inr (Some job), d')"
  shows "\<exists>x. createAndEditJobSchema_parse (isUrl e) (isUuid e) values = Inr x
            \<and> optional_columns job = optional_outputs (sanitizeJobInput x)
            \<and> position job = position_s (sanitizeJobInput x)
            \<and> company job = company_s (sanitizeJobInput x)
            \<and> location job = location_s (sanitizeJobInput x)
            \<and> job \<in> set (rows d')"
  using assms unfolding updateJobAction_def Let_def
  by (auto split: sum.splits prod.splits dest: prisma_job_update_result)

text \<open>
  Claim C1. Whenever validation accepts an input, no optional field of the sanitized
  record is the empty string, and an optional field that was the empty string in the
  input is absent (\<open>null\<close>). The row that \<open>createJobAction\<close> stores and returns, and the
  row that \<open>updateJobAction\<close> stores and returns, carry exactly the optional fields of
  the sanitized record: on both paths the sanitizer runs between validation and
  storage.
\<close>

theorem empty_optional_fields_become_absent:
  assumes "createAndEditJobSchema_parse (isUrl e) (isUuid e) values = Inr x"
  shows "(\<forall>i<6. optional_outputs (sanitizeJobInput x) ! i \<noteq> Some []
            \<and> (optional_inputs values ! i = Str [] \<longrightarrow>
                 optional_outputs (sanitizeJobInput x) ! i = None))
       \<and> (\<forall>job d'. createJobAction e values d = (Inr (Some job), d') \<longrightarrow>
            job \<in> set (rows d')
            \<and> optional_columns job = optional_outputs (sanitizeJobInput x))
       \<and> (\<forall>job d'. updateJobAction e i values d = (Inr (Some job), d') \<longrightarrow>
            job \<in> set (rows d')
            \<and> optional_columns job = optional_outputs (sanitizeJobInput x))"
proof (intro conjI)
  show "\<forall>i<6. optional_outputs (sanitizeJobInput x) ! i \<noteq> Some []
            \<and> (optional_inputs values ! i = Str [] \<longrightarrow>
                 optional_outputs (sanitizeJobInput x) ! i = None)"
    using sanitized_optional_outputs [OF assms] by blast
  show "\<forall>job d'. createJobAction e values d = (Inr (Some job), d') \<longrightarrow>
            job \<in> set (rows d')
            \<and> optional_columns job = optional_outputs (sanitizeJobInput x)"
    using assms by (auto dest!: createJobAction_Some)
  show "\<forall>job d'. updateJobAction e i values d = (Inr (Some job), d') \<longrightarrow>
            job \<in> set (rows d')
            \<and> optional_columns job = optional_outputs (sanitizeJobInput x)"
    using assms by (auto dest!: updateJobAction_Some)
qed

theorem empty_optional_fields_become_absent_witness:
  "createAndEditJobSchema_parse (isUrl sample_env) (isUuid sample_env)
       (sample_input ''Engineer'')
     = Inr \<lparr>position_v = ''Engineer'', company_v = ''Acme'', location_v = ''Paris'',
            status_v = ''applied'', mode_v = ''remote'', salaryRange_v = Some [],
            jobUrl_v = Some [], website_v = Some [], coverLetterUrl_v = Some [],
            resumeId_v = Some [], notes_v = Some []\<rparr>
   \<and> optional_inputs (sample_input ''Engineer'') = replicate 6 (Str [])
   \<and> (case createJobAction sample_env (sample_input ''Engineer'') \<lparr>rows = [], faults = []\<rparr> of
        (Inr (Some job), d') \<Rightarrow>
          optional_columns job = replicate 6 None \<and> job \<in> set (rows d')
      | _ \<Rightarrow> False)
   \<and> (case updateJobAction sample_env ''job_1'' (sample_input ''Engineer'')
             \<lparr>rows = [sample_job ''job_1'' ''user_A'' ''offer'' ''hybrid'' (2025, 8, 1, 0)],
              faults = []\<rparr> of
        (Inr (Some job), d') \<Rightarrow>
          optional_columns job = replicate 6 None \<and> job \<in> set (rows d')
      | _ \<Rightarrow> False)"
  (is "?parse \<and> ?rest")
proof -
  have h: ?parse by code_simp
  have r: ?rest by code_simp
  from h r show ?thesis
    using empty_optional_fields_become_absent
      [OF h, of "\<lparr>rows = [], faults = []\<rparr>" "''job_1''"]
    by - (rule conjI)
qed

subsection \<open>Numerals and month keys\<close>

lemma of_char_digit: "n < 10 \<Longrightarrow> (of_char (char_of (48 + n) :: char) :: nat) = 48 + n"
  by simp

lemma String_nat_digits: "c \<in> set (String_nat n) \<Longrightarrow> is_digit c"
proof (induction n arbitrary: c rule: String_nat.induct)
  case (1 n)
  show ?case
  proof (cases "n < 10")
    case True
    with "1.prems" show ?thesis by (subst (asm) String_nat.simps) (simp add: is_digit_def)
  next
    case False
    have "n mod 10 < 10" by simp
    then have "is_digit (char_of (48 + n mod 10))"
      unfolding is_digit_def by (simp add: of_char_digit)
    with False 1 show ?thesis by (subst (asm) (2) String_nat.simps) auto
  qed
qed

lemma String_nat_nonempty: "String_nat n \<noteq> []"
  by (subst String_nat.simps) simp

lemma nat_of_string_snoc: "nat_of_string (s @ [c]) = 10 * nat_of_string s + (of_char c - 48)"
  by (simp add: nat_of_string_def)

lemma nat_of_String_nat: "nat_of_string (String_nat n) = n"
proof (induction n rule: String_nat.induct)
  case (1 n)
  show ?case
  proof (cases "n < 10")
    case True
    then show ?thesis by (subst String_nat.simps) (simp add: nat_of_string_def)
  next
    case False
    have "n mod 10 < 10" by simp
    then have "(of_char (char_of (48 + n mod 10) :: char) :: nat) = 48 + n mod 10"
      by (rule of_char_digit)
    with False 1 show ?thesis
      by (subst String_nat.simps) (simp add: nat_of_string_snoc)
  qed
qed

lemma nat_of_string_zeros: "nat_of_string (replicate k CHR ''0'' @ s) = nat_of_string s"
  by (induction k) (simp_all add: nat_of_string_def)

lemma dash_not_digit: "\<not> is_digit CHR ''-''"
  by (simp add: is_digit_def)

lemma zero_is_digit: "is_digit CHR ''0''"
  by (simp add: is_digit_def)

text \<open>Padded numerals.\<close>

lemma padStart_zeros: "\<exists>k. padStart s n CHR ''0'' = replicate k CHR ''0'' @ s"
  unfolding padStart_def by (metis append_Nil replicate_0)

lemma padStart_nat_inj:
  assumes "padStart (String_nat a) n CHR ''0'' = padStart (String_nat b) m CHR ''0''"
  shows "a = b"
proof -
  obtain k where k: "padStart (String_nat a) n CHR ''0'' = replicate k CHR ''0'' @ String_nat a"
    using padStart_zeros by blast
  obtain l where l: "padStart (String_nat b) m CHR ''0'' = replicate l CHR ''0'' @ String_nat b"
    using padStart_zeros by blast
  from assms k l have "nat_of_string (replicate k CHR ''0'' @ String_nat a)
      = nat_of_string (replicate l CHR ''0'' @ String_nat b)" by simp
  then show ?thesis by (simp add: nat_of_string_zeros nat_of_String_nat)
qed

lemma padStart_nat_digits: "c \<in> set (padStart (String_nat a) n CHR ''0'') \<Longrightarrow> is_digit c"
  unfolding padStart_def by (auto simp: zero_is_digit dest: String_nat_digits split: if_splits)

lemma padStart_nonempty: "s \<noteq> [] \<Longrightarrow> padStart s n c \<noteq> []"
  by (simp add: padStart_def)

text \<open>The year: a sign is found after the zeros.\<close>

lemma nat_of_string_dropWhile_zero:
  "nat_of_string (dropWhile (\<lambda>c. c = CHR ''0'') s) = nat_of_string s"
  by (induction s) (simp_all add: nat_of_string_zeros [of 1, simplified])

lemma int_of_string_digits:
  assumes "\<forall>c \<in> set s. is_digit c"
  shows "int_of_string s = int (nat_of_string s)"
proof -
  let ?t = "dropWhile (\<lambda>c. c = CHR ''0'') s"
  have t: "nat_of_string ?t = nat_of_string s" by (rule nat_of_string_dropWhile_zero)
  show ?thesis
  proof (cases ?t)
    case Nil
    have "int_of_string s = 0" unfolding int_of_string_def Nil by simp
    moreover from t [unfolded Nil] have "nat_of_string s = 0" by (simp add: nat_of_string_def)
    ultimately show ?thesis by simp
  next
    case (Cons c r)
    then have "c \<in> set s" by (metis list.set_intros(1) set_dropWhileD)
    with assms have "c \<noteq> CHR ''-''" using dash_not_digit by blast
    then have "int_of_string s = int (nat_of_string (c # r))"
      unfolding int_of_string_def Cons by simp
    with t [unfolded Cons] show ?thesis by simp
  qed
qed

lemma int_of_String_int_padded:
  "int_of_string (replicate k CHR ''0'' @ String_int y) = y"
proof (cases "y < 0")
  case True
  have "dropWhile (\<lambda>c. c = CHR ''0'') (replicate k CHR ''0'' @ CHR ''-'' # r) = CHR ''-'' # r" for r
    by (induction k) simp_all
  with True show ?thesis
    by (simp add: int_of_string_def String_int_def nat_of_String_nat)
next
  case False
  have "\<forall>c \<in> set (replicate k CHR ''0'' @ String_nat (nat y)). is_digit c"
    by (auto simp: zero_is_digit dest: String_nat_digits)
  then have "int_of_string (replicate k CHR ''0'' @ String_nat (nat y))
      = int (nat_of_string (replicate k CHR ''0'' @ String_nat (nat y)))"
    by (rule int_of_string_digits)
  with False show ?thesis
    by (simp add: String_int_def nat_of_string_zeros nat_of_String_nat)
qed

lemma fmt_YYYY_inj: "fmt_YYYY a = fmt_YYYY b \<Longrightarrow> year a = year b"
proof -
  assume e: "fmt_YYYY a = fmt_YYYY b"
  obtain k where k: "fmt_YYYY a = replicate k CHR ''0'' @ String_int (year a)"
    unfolding fmt_YYYY_def using padStart_zeros by blast
  obtain l where l: "fmt_YYYY b = replicate l CHR ''0'' @ String_int (year b)"
    unfolding fmt_YYYY_def using padStart_zeros by blast
  from e k l have "int_of_string (replicate k CHR ''0'' @ String_int (year a))
     = int_of_string (replicate l CHR ''0'' @ String_int (year b))" by simp
  then show ?thesis by (simp add: int_of_String_int_padded)
qed

lemma fmt_MM_inj: "fmt_MM a = fmt_MM b \<Longrightarrow> month a = month b"
  unfolding fmt_MM_def by (drule padStart_nat_inj) simp

lemma fmt_MM_no_dash: "CHR ''-'' \<notin> set (fmt_MM a)"
  unfolding fmt_MM_def using padStart_nat_digits dash_not_digit by blast

lemma split_at_last_dash:
  assumes "a @ CHR ''-'' # b = a' @ CHR ''-'' # b'"
    and "CHR ''-'' \<notin> set b" and "CHR ''-'' \<notin> set b'"
  shows "a = a' \<and> b = b'"
proof -
  have "rev b @ CHR ''-'' # rev a = rev b' @ CHR ''-'' # rev a'"
    using arg_cong [OF assms(1), of rev] by simp
  moreover have "takeWhile (\<lambda>c. c \<noteq> CHR ''-'') (rev b @ CHR ''-'' # rev a) = rev b"
    using assms(2) by (subst takeWhile_append2) auto
  moreover have "takeWhile (\<lambda>c. c \<noteq> CHR ''-'') (rev b' @ CHR ''-'' # rev a') = rev b'"
    using assms(3) by (subst takeWhile_append2) auto
  ultimately have "rev b = rev b'" by simp
  then have "b = b'" by simp
  with assms(1) show ?thesis by simp
qed

lemma format_YYYY_MM_eq_iff:
  "format_YYYY_MM a = format_YYYY_MM b \<longleftrightarrow> year a = year b \<and> month a = month b"
proof
  assume "format_YYYY_MM a = format_YYYY_MM b"
  then have "fmt_YYYY a @ CHR ''-'' # fmt_MM a = fmt_YYYY b @ CHR ''-'' # fmt_MM b"
    unfolding format_YYYY_MM_def by simp
  then have "fmt_YYYY a = fmt_YYYY b \<and> fmt_MM a = fmt_MM b"
    by (rule split_at_last_dash) (rule fmt_MM_no_dash)+
  then show "year a = year b \<and> month a = month b"
    using fmt_YYYY_inj fmt_MM_inj by blast
next
  assume "year a = year b \<and> month a = month b"
  then show "format_YYYY_MM a = format_YYYY_MM b"
    by (simp add: format_YYYY_MM_def fmt_YYYY_def fmt_MM_def)
qed

lemma format_YYYY_MM_nonempty: "format_YYYY_MM a \<noteq> []"
  by (simp add: format_YYYY_MM_def)

subsection \<open>The export follows the layout\<close>

lemma layout_Nil: "layout [] = []"
  by (simp add: layout_def)

lemma layout_snoc:
  "layout (xs @ [x]) =
     layout xs
     @ (if xs \<noteq> [] \<and> created_month x \<noteq> created_month (last xs) then [Separator] else [])
     @ [DataRow (length xs + 1) x]"
proof -
  let ?f = "\<lambda>js i. (if 0 < i \<and> created_month (js ! i) \<noteq> created_month (js ! (i - 1))
                         then [Separator] else [])
                        @ [DataRow (i + 1) (js ! i)]"
  have a: "map (?f (xs @ [x])) [0..<length xs] = map (?f xs) [0..<length xs]"
    by (rule map_cong) (auto simp: nth_append)
  have b: "?f (xs @ [x]) (length xs) =
      (if xs \<noteq> [] \<and> created_month x \<noteq> created_month (last xs) then [Separator] else [])
       @ [DataRow (length xs + 1) x]"
    by (cases "xs = []") (simp_all add: nth_append last_conv_nth)
  have "layout (xs @ [x]) = concat (map (?f (xs @ [x])) ([0..<length xs] @ [length xs]))"
    unfolding layout_def by simp
  also have "\<dots> = concat (map (?f (xs @ [x])) [0..<length xs]) @ ?f (xs @ [x]) (length xs)"
    by simp
  also have "\<dots> = concat (map (?f xs) [0..<length xs])
      @ (if xs \<noteq> [] \<and> created_month x \<noteq> created_month (last xs) then [Separator] else [])
      @ [DataRow (length xs + 1) x]"
    by (simp only: a b)
  finally show ?thesis
    unfolding layout_def .
qed

lemma month_key_differs:
  "format_YYYY_MM (createdAt x) = format_YYYY_MM (createdAt y) \<longleftrightarrow>
     created_month x = created_month y"
  by (simp add: format_YYYY_MM_eq_iff created_month_def)

lemma csv_each_line:
  "csv_each (c, n, k) job =
     (c @ (if k \<noteq> [] \<and> format_YYYY_MM (createdAt job) \<noteq> k then newline else [])
        @ join_comma (csv_fields n job) @ newline,
      n + 1, format_YYYY_MM (createdAt job))"
  by (simp add: csv_each_def csv_fields_def role_of_mode_def Let_def)

lemma excel_each_line:
  "excel_each (r, n, k) job =
     (r @ (if k \<noteq> [] \<and> format_YYYY_MM (createdAt job) \<noteq> k then [ []] else [])
        @ [excel_line (DataRow n job)],
      n + 1, format_YYYY_MM (createdAt job))"
  by (simp add: excel_each_def role_of_mode_def Let_def)

lemma csv_fold:
  "foldl csv_each (c, 1, []) xs =
     (c @ concat (map csv_line (layout xs)), length xs + 1,
      if xs = [] then [] else format_YYYY_MM (createdAt (last xs)))"
proof (induction xs rule: rev_induct)
  case Nil
  show ?case by (simp add: layout_Nil)
next
  case (snoc x xs)
  then show ?case
    by (simp add: csv_each_line layout_snoc format_YYYY_MM_nonempty month_key_differs)
qed

lemma excel_fold:
  "foldl excel_each (r, 1, []) xs =
     (r @ map excel_line (layout xs), length xs + 1,
      if xs = [] then [] else format_YYYY_MM (createdAt (last xs)))"
proof (induction xs rule: rev_induct)
  case Nil
  show ?case by (simp add: layout_Nil)
next
  case (snoc x xs)
  then show ?case
    by (simp add: excel_each_line layout_snoc format_YYYY_MM_nonempty month_key_differs)
qed

lemma downloadAsCSV_layout:
  "downloadAsCSV jobs today =
     csv_header jobs today @ concat (map csv_line (layout (sort_newest_first jobs)))"
  unfolding downloadAsCSV_def Let_def csv_fold csv_header_def by simp

lemma downloadAsExcel_layout:
  "downloadAsExcel jobs today =
     excel_header jobs today @ map excel_line (layout (sort_newest_first jobs))"
  unfolding downloadAsExcel_def Let_def excel_fold excel_header_def by simp

lemma sort_newest_first_sorted: "sorted (rev (map createdAt (sort_newest_first jobs)))"
  by (simp add: sort_newest_first_def rev_map [symmetric])

lemma sort_newest_first_mset: "mset (sort_newest_first jobs) = mset jobs"
  by (simp add: sort_newest_first_def)

lemma layout_data_rows:
  "filter (\<lambda>l. l \<noteq> Separator) (layout js) = map (\<lambda>i. DataRow (i + 1) (js ! i)) [0..<length js]"
proof (induction js rule: rev_induct)
  case Nil
  show ?case by (simp add: layout_Nil)
next
  case (snoc x xs)
  have "map (\<lambda>i. DataRow (i + 1) ((xs @ [x]) ! i)) [0..<length xs]
      = map (\<lambda>i. DataRow (i + 1) (xs ! i)) [0..<length xs]"
    by (rule map_cong) (auto simp: nth_append)
  with snoc show ?case by (simp add: layout_snoc)
qed

lemma layout_single: "layout [x] = [DataRow 1 x]"
  by (simp add: layout_def)

lemma layout_eq_Nil: "layout js = [] \<longleftrightarrow> js = []"
  by (cases js rule: rev_cases) (simp_all add: layout_Nil layout_snoc)

lemma layout_first: "Separator \<notin> set (take 1 (layout js))"
proof (induction js rule: rev_induct)
  case Nil
  show ?case by (simp add: layout_Nil)
next
  case (snoc x xs)
  show ?case
  proof (cases "xs = []")
    case True
    then show ?thesis by (simp add: layout_single)
  next
    case False
    then have "layout xs \<noteq> []" by (simp add: layout_eq_Nil)
    then have "take 1 (layout (xs @ [x])) = take 1 (layout xs)"
      by (cases "layout xs") (simp_all add: layout_snoc)
    with snoc show ?thesis by simp
  qed
qed

lemma layout_last: "Separator \<notin> set (take 1 (rev (layout js)))"
  by (cases js rule: rev_cases) (simp_all add: layout_Nil layout_snoc)

lemma excel_role_column:
  "map (\<lambda>r. r ! 5) (filter (\<lambda>r. r \<noteq> []) (map excel_line (layout js)))
     = map (\<lambda>j. Text (role_of_mode (mode j))) js"
  by (induction js rule: rev_induct) (simp_all add: layout_Nil layout_snoc)

subsection \<open>Evaluating formats\<close>

lemma digit_chars:
  "(char_of (48 :: nat) :: char) = CHR ''0''" "(char_of (49 :: nat) :: char) = CHR ''1''"
  "(char_of (50 :: nat) :: char) = CHR ''2''" "(char_of (51 :: nat) :: char) = CHR ''3''"
  "(char_of (52 :: nat) :: char) = CHR ''4''" "(char_of (53 :: nat) :: char) = CHR ''5''"
  "(char_of (54 :: nat) :: char) = CHR ''6''" "(char_of (55 :: nat) :: char) = CHR ''7''"
  "(char_of (56 :: nat) :: char) = CHR ''8''" "(char_of (57 :: nat) :: char) = CHR ''9''"
  by code_simp+

lemmas date_eval = digit_chars year_def month_def day_def millis_def String_nat.simps
  String_int_def padStart_def monthsShort_def fmt_MMM_def fmt_YY_def fmt_YYYY_def fmt_MM_def
  fmt_DD_def fmt_HH_def fmt_mm_def format_MMM_YY_def format_YYYY_MM_def
  format_DD_MMM_YYYY_def format_DD_MMM_YYYY_HH_mm_def

lemma capitalize_samples:
  "capitalize ''rejected'' = ''Rejected''" "capitalize ''offer'' = ''Offer''"
  "capitalize ''applied'' = ''Applied''"
  by code_simp+

subsection \<open>The export claims\<close>

text \<open>
  Claim C6. In both encodings the lines below the header are the layout of the jobs
  sorted by creation timestamp, newest first: the sorted list is a permutation of
  the jobs in descending order of \<open>createdAt\<close>, every job gives one data row, in that
  order, and a blank separator stands exactly between two consecutive data rows
  whose creation months differ; no separator is the first or the last line.
\<close>

theorem export_sorted_by_creation_with_month_separators:
  "downloadAsCSV jobs today
     = csv_header jobs today @ concat (map csv_line (layout (sort_newest_first jobs)))
   \<and> downloadAsExcel jobs today
     = excel_header jobs today @ map excel_line (layout (sort_newest_first jobs))
   \<and> sorted (rev (map createdAt (sort_newest_first jobs)))
   \<and> mset (sort_newest_first jobs) = mset jobs
   \<and> filter (\<lambda>l. l \<noteq> Separator) (layout (sort_newest_first jobs))
       = map (\<lambda>i. DataRow (i + 1) (sort_newest_first jobs ! i)) [0..<length jobs]
   \<and> Separator \<notin> set (take 1 (layout (sort_newest_first jobs)))
   \<and> Separator \<notin> set (take 1 (rev (layout (sort_newest_first jobs))))"
proof -
  have "length (sort_newest_first jobs) = length jobs"
    by (simp add: sort_newest_first_def)
  with layout_data_rows [of "sort_newest_first jobs"]
  have "filter (\<lambda>l. l \<noteq> Separator) (layout (sort_newest_first jobs))
       = map (\<lambda>i. DataRow (i + 1) (sort_newest_first jobs ! i)) [0..<length jobs]"
    by simp
  then show ?thesis
    using downloadAsCSV_layout downloadAsExcel_layout sort_newest_first_sorted
      sort_newest_first_mset layout_first layout_last
    by blast
qed

theorem export_sorted_by_creation_with_month_separators_witness:
  "layout (sort_newest_first
       [sample_job ''job_1'' ''user_A'' ''offer'' ''hybrid'' (2025, 9, 5, 0),
        sample_job ''job_2'' ''user_A'' ''rejected'' ''full-time'' (2025, 9, 20, 0),
        sample_job ''job_3'' ''user_A'' ''rejected'' ''part-time'' (2025, 8, 30, 0)])
     = [DataRow 1 (sample_job ''job_2'' ''user_A'' ''rejected'' ''full-time'' (2025, 9, 20, 0)),
        DataRow 2 (sample_job ''job_1'' ''user_A'' ''offer'' ''hybrid'' (2025, 9, 5, 0)),
        Separator,
        DataRow 3 (sample_job ''job_3'' ''user_A'' ''rejected'' ''part-time'' (2025, 8, 30, 0))]
   \<and> drop 4 (downloadAsExcel
       [sample_job ''job_1'' ''user_A'' ''offer'' ''hybrid'' (2025, 9, 5, 0),
        sample_job ''job_2'' ''user_A'' ''rejected'' ''full-time'' (2025, 9, 20, 0),
        sample_job ''job_3'' ''user_A'' ''rejected'' ''part-time'' (2025, 8, 30, 0)]
       (2025, 10, 2, 0))
     = [ [Number 1, Text ''20-Oct-2025'', Text ''Engineer'', Text ''Acme'', Text ''Paris'',
         Text ''Full Time'', Text ''Rejected''],
        [Number 2, Text ''05-Oct-2025'', Text ''Engineer'', Text ''Acme'', Text ''Paris'',
         Text ''Internship'', Text ''Offer''],
        [],
        [Number 3, Text ''30-Sep-2025'', Text ''Engineer'', Text ''Acme'', Text ''Paris'',
         Text ''Part Time'', Text ''Rejected'']]"
  (is "?lay \<and> ?xls")
proof -
  let ?jobs = "[sample_job ''job_1'' ''user_A'' ''offer'' ''hybrid'' (2025, 9, 5, 0),
                sample_job ''job_2'' ''user_A'' ''rejected'' ''full-time'' (2025, 9, 20, 0),
                sample_job ''job_3'' ''user_A'' ''rejected'' ''part-time'' (2025, 8, 30, 0)]"
  have s: "sort_newest_first ?jobs
     = [sample_job ''job_2'' ''user_A'' ''rejected'' ''full-time'' (2025, 9, 20, 0),
        sample_job ''job_1'' ''user_A'' ''offer'' ''hybrid'' (2025, 9, 5, 0),
        sample_job ''job_3'' ''user_A'' ''rejected'' ''part-time'' (2025, 8, 30, 0)]"
    by (simp add: sort_newest_first_def sample_job_def)
  have l: ?lay
    unfolding s
    by (simp add: layout_def created_month_def sample_job_def year_def month_def upt_rec)
  have "drop 4 (downloadAsExcel ?jobs (2025, 10, 2, 0))
      = map excel_line (layout (sort_newest_first ?jobs))"
    using export_sorted_by_creation_with_month_separators [of ?jobs "(2025, 10, 2, 0)"]
    by (simp add: excel_header_def)
  then have x: ?xls
    unfolding l
    by (simp add: sample_job_def date_eval role_of_mode_def capitalize_samples)
  from l x show ?thesis by (rule conjI)
qed

text \<open>
  Claim C10. The Role column of the worksheet is the role of the mode of each job,
  in the exported order, and the sixth field of a line of the delimited text is the
  same role, where \<open>full-time\<close> gives \<open>Full Time\<close>, \<open>part-time\<close> gives \<open>Part Time\<close>, and
  every other mode gives \<open>Internship\<close>: so do \<open>contract\<close>, \<open>remote\<close> and \<open>hybrid\<close>.
\<close>

theorem role_column_maps_other_modes_to_internship:
  "map (\<lambda>r. r ! 5) (filter (\<lambda>r. r \<noteq> []) (drop 4 (downloadAsExcel jobs today)))
     = map (\<lambda>j. Text (role_of_mode (mode j))) (sort_newest_first jobs)
   \<and> fst (csv_each (c, n, k) job)
     = c @ (if k \<noteq> [] \<and> format_YYYY_MM (createdAt job) \<noteq> k then newline else [])
         @ join_comma
             [String_nat n, format_DD_MMM_YYYY (createdAt job), dquote @ position job @ dquote,
              dquote @ company job @ dquote, dquote @ location job @ dquote,
              role_of_mode (mode job), capitalize (status job)]
         @ newline
   \<and> map role_of_mode JobMode
     = [''Full Time'', ''Part Time'', ''Internship'', ''Internship'', ''Internship'']
   \<and> role_of_mode m
     = (if m = ''full-time'' then ''Full Time''
        else if m = ''part-time'' then ''Part Time'' else ''Internship'')"
proof (intro conjI)
  show "map (\<lambda>r. r ! 5) (filter (\<lambda>r. r \<noteq> []) (drop 4 (downloadAsExcel jobs today)))
     = map (\<lambda>j. Text (role_of_mode (mode j))) (sort_newest_first jobs)"
    by (simp add: downloadAsExcel_layout excel_header_def excel_role_column)
  show "fst (csv_each (c, n, k) job)
     = c @ (if k \<noteq> [] \<and> format_YYYY_MM (createdAt job) \<noteq> k then newline else [])
         @ join_comma
             [String_nat n, format_DD_MMM_YYYY (createdAt job), dquote @ position job @ dquote,
              dquote @ company job @ dquote, dquote @ location job @ dquote,
              role_of_mode (mode job), capitalize (status job)]
         @ newline"
    by (simp add: csv_each_line csv_fields_def)
  show "map role_of_mode JobMode
     = [''Full Time'', ''Part Time'', ''Internship'', ''Internship'', ''Internship'']"
    by (simp add: JobMode_def role_of_mode_def)
  show "role_of_mode m
     = (if m = ''full-time'' then ''Full Time''
        else if m = ''part-time'' then ''Part Time'' else ''Internship'')"
    by (rule role_of_mode_def)
qed

text \<open>
  Claim C8 asks for the count of each of the five statuses in the summary row. The
  heading counts the statuses \<open>declined\<close>, \<open>interview\<close> and \<open>pending\<close> and the total:
  two exports with different status counts get the same summary row, in which
  neither the two rejected jobs nor the offer are counted.
\<close>

theorem summary_row_counts_legacy_statuses:
  "headingText
       [sample_job ''job_1'' ''user_A'' ''rejected'' ''remote'' (2025, 9, 5, 0),
        sample_job ''job_2'' ''user_A'' ''rejected'' ''remote'' (2025, 9, 6, 0),
        sample_job ''job_3'' ''user_A'' ''offer'' ''remote'' (2025, 9, 7, 0)]
       (2025, 10, 2, 0)
     = ''Total Applied: 3, Declined: 0, Interview: 0, Pending: 0      Report Generated: 02-Nov-2025 00:00''
   \<and> headingText
       [sample_job ''job_1'' ''user_A'' ''applied'' ''remote'' (2025, 9, 5, 0),
        sample_job ''job_2'' ''user_A'' ''applied'' ''remote'' (2025, 9, 6, 0),
        sample_job ''job_3'' ''user_A'' ''screening'' ''remote'' (2025, 9, 7, 0)]
       (2025, 10, 2, 0)
     = ''Total Applied: 3, Declined: 0, Interview: 0, Pending: 0      Report Generated: 02-Nov-2025 00:00''"
  by (simp add: headingText_def sample_job_def date_eval)

text \<open>
  Claim C9 asks for a stored position of two to two hundred characters. The schema
  chains \<open>min\<close> and \<open>max\<close> before \<open>trim\<close>, so the length is checked on the untrimmed
  string: a letter followed by a space is accepted and stored as one character, and
  two spaces are accepted and stored as the empty string.
\<close>

theorem position_length_checked_before_trim:
  "createAndEditJobSchema_parse (isUrl sample_env) (isUuid sample_env) (sample_input ''a '')
     = Inr \<lparr>position_v = ''a'', company_v = ''Acme'', location_v = ''Paris'',
            status_v = ''applied'', mode_v = ''remote'', salaryRange_v = Some [],
            jobUrl_v = Some [], website_v = Some [], coverLetterUrl_v = Some [],
            resumeId_v = Some [], notes_v = Some []\<rparr>
   \<and> map_sum (map path) (position_s \<circ> sanitizeJobInput)
       (createAndEditJobSchema_parse (isUrl sample_env) (isUuid sample_env) (sample_input ''  ''))
     = Inr []
   \<and> map_sum (map path) (position_s \<circ> sanitizeJobInput)
       (createAndEditJobSchema_parse (isUrl sample_env) (isUuid sample_env) (sample_input ''a''))
     = Inl [''position'']"
  by code_simp

subsection \<open>Owner isolation\<close>

lemma matches_owner: "matches e w j \<Longrightarrow> clerkId j = w_clerkId w"
  by (simp add: matches_def)

lemma filter_matches_own:
  "filter (matches e w) rs = filter (matches e w) (filter (\<lambda>j. clerkId j = w_clerkId w) rs)"
  by (induction rs) (auto dest: matches_owner)

lemma find_matches_own:
  "find (matches e w) rs = find (matches e w) (filter (\<lambda>j. clerkId j = w_clerkId w) rs)"
  by (induction rs) (auto dest: matches_owner)

lemma same_view_filter:
  assumes "same_view (w_clerkId w) d d'"
  shows "filter (matches e w) (rows d) = filter (matches e w) (rows d')"
    and "find (matches e w) (rows d) = find (matches e w) (rows d')"
    and "faulty d = faulty d'"
    and "same_view (w_clerkId w) (tick d) (tick d')"
proof -
  from assms have r: "filter (\<lambda>j. clerkId j = w_clerkId w) (rows d)
      = filter (\<lambda>j. clerkId j = w_clerkId w) (rows d')" and f: "faults d = faults d'"
    by (simp_all add: same_view_def)
  from r show "filter (matches e w) (rows d) = filter (matches e w) (rows d')"
    by (metis filter_matches_own)
  from r show "find (matches e w) (rows d) = find (matches e w) (rows d')"
    by (metis find_matches_own)
  from f show "faulty d = faulty d'" by (simp add: faulty_def)
  from r f show "same_view (w_clerkId w) (tick d) (tick d')"
    by (simp add: same_view_def tick_def)
qed

lemma findMany_same_view:
  assumes "same_view (w_clerkId w) d d'"
  shows "fst (prisma_job_findMany e w s t ord d) = fst (prisma_job_findMany e w s t ord d')"
    and "same_view (w_clerkId w) (snd (prisma_job_findMany e w s t ord d))
           (snd (prisma_job_findMany e w s t ord d'))"
  using same_view_filter [OF assms]
  by (auto simp: prisma_job_findMany_def prisma_call_def same_view_def tick_def)

lemma count_same_view:
  assumes "same_view (w_clerkId w) d d'"
  shows "fst (prisma_job_count e w d) = fst (prisma_job_count e w d')"
  using same_view_filter [OF assms]
  by (auto simp: prisma_job_count_def prisma_call_def)

lemma findUnique_same_view:
  assumes "same_view (w_clerkId w) d d'"
  shows "fst (prisma_job_findUnique e w d) = fst (prisma_job_findUnique e w d')"
  using same_view_filter [OF assms]
  by (auto simp: prisma_job_findUnique_def prisma_call_def)

lemma take_drop_subset: "set (take n (drop m ys)) \<subseteq> set ys"
  by (meson set_take_subset set_drop_subset subset_trans)

lemma paginate_subset:
  assumes "paginate s t xs = Inr js"
  shows "set js \<subseteq> set xs"
  using assms unfolding paginate_def Let_def
  by (auto split: if_splits option.splits dest!: in_set_takeD in_set_dropD)

lemma set_orderBy: "set (orderBy_appliedDate ord xs) = set xs"
  by (cases ord) (simp_all add: orderBy_appliedDate_def)

lemma findMany_owner:
  assumes "prisma_job_findMany e w s t ord d = (Inr js, d')" and "j \<in> set js"
  shows "clerkId j = w_clerkId w"
proof -
  from assms(1)
  have "paginate s t (orderBy_appliedDate ord (filter (matches e w) (rows d))) = Inr js"
    by (auto simp: prisma_job_findMany_def prisma_call_def split: if_splits)
  then have "set js \<subseteq> set (orderBy_appliedDate ord (filter (matches e w) (rows d)))"
    by (rule paginate_subset)
  with assms(2) have "matches e w j" by (auto simp: set_orderBy)
  then show ?thesis by (rule matches_owner)
qed

lemma getAllJobsAction_unfold:
  assumes "authenticateAndRedirect (auth e) = Inr a"
  shows "getAllJobsAction e args d =
     (case prisma_job_findMany e (list_where a args)
             (Some ((page_or_default args - 1) * limit_or_default args))
             (Some (limit_or_default args)) Desc d of
        (Inl err, d1) \<Rightarrow> (Inr failed_result, d1)
      | (Inr jobs, d1) \<Rightarrow>
          (case prisma_job_count e (list_where a args) d1 of
             (Inl err, d2) \<Rightarrow> (Inr failed_result, d2)
           | (Inr cnt, d2) \<Rightarrow>
               (Inr \<lparr>jobs_of = jobs, count_of = cnt, page_of = page_or_default args,
                     totalPages_of = Math_ceil_div cnt (limit_or_default args)\<rparr>, d2)))"
proof -
  have w: "(case jobStatus args of
              None \<Rightarrow> (case search args of
                          None \<Rightarrow> owner_where a
                        | Some s \<Rightarrow> if s \<noteq> [] then (owner_where a)\<lparr>w_OR := Some s\<rparr>
                                   else owner_where a)
            | Some s \<Rightarrow>
                if s \<noteq> [] \<and> s \<noteq> ''all''
                then (case search args of
                          None \<Rightarrow> owner_where a
                        | Some s \<Rightarrow> if s \<noteq> [] then (owner_where a)\<lparr>w_OR := Some s\<rparr>
                                   else owner_where a)\<lparr>w_status := Some s\<rparr>
                else (case search args of
                          None \<Rightarrow> owner_where a
                        | Some s \<Rightarrow> if s \<noteq> [] then (owner_where a)\<lparr>w_OR := Some s\<rparr>
                                   else owner_where a))
         = list_where a args"
    by (simp add: list_where_def owner_where_def split: option.splits)
  show ?thesis
    unfolding getAllJobsAction_def Let_def assms sum.case w
      page_or_default_def [symmetric] limit_or_default_def [symmetric]
      failed_result_def [symmetric]
    by (rule refl)
qed

lemma list_where_owner: "w_clerkId (list_where a args) = a"
  by (simp add: list_where_def)

lemma getAllJobsAction_owner:
  assumes "authenticateAndRedirect (auth e) = Inr a"
    and "getAllJobsAction e args d = (Inr r, d')" and "j \<in> set (jobs_of r)"
  shows "clerkId j = a"
proof (cases "prisma_job_findMany e (list_where a args)
             (Some ((page_or_default args - 1) * limit_or_default args))
             (Some (limit_or_default args)) Desc d")
  case (Pair x d1)
  show ?thesis
  proof (cases x)
    case (Inl err)
    with Pair assms(2,3) show ?thesis
      by (auto simp: getAllJobsAction_unfold [OF assms(1)] failed_result_def)
  next
    case (Inr js)
    with Pair have own: "\<forall>j \<in> set js. clerkId j = a"
      using findMany_owner [of e "list_where a args" _ _ Desc d js d1]
      by (simp add: list_where_owner)
    from Pair Inr assms(2) have "jobs_of r = js \<or> jobs_of r = []"
      by (auto simp: getAllJobsAction_unfold [OF assms(1)] failed_result_def
          split: prod.splits sum.splits)
    with own assms(3) show ?thesis by auto
  qed
qed

lemma getAllJobsAction_same_view:
  assumes "authenticateAndRedirect (auth e) = Inr a" and "same_view a d d'"
  shows "fst (getAllJobsAction e args d) = fst (getAllJobsAction e args d')"
proof -
  let ?w = "list_where a args"
  let ?f = "\<lambda>d. prisma_job_findMany e ?w
             (Some ((page_or_default args - 1) * limit_or_default args))
             (Some (limit_or_default args)) Desc d"
  from assms(2) have v: "same_view (w_clerkId ?w) d d'" by (simp add: list_where_owner)
  have f: "fst (?f d) = fst (?f d')" by (rule findMany_same_view(1) [OF v])
  have "same_view (w_clerkId ?w) (snd (?f d)) (snd (?f d'))"
    by (rule findMany_same_view(2) [OF v])
  then have c: "fst (prisma_job_count e ?w (snd (?f d))) = fst (prisma_job_count e ?w (snd (?f d')))"
    by (rule count_same_view)
  obtain x1 d1 where p1: "?f d = (x1, d1)" by (cases "?f d")
  obtain x2 d2 where p2: "?f d' = (x2, d2)" by (cases "?f d'")
  obtain y1 e1 where q1: "prisma_job_count e ?w d1 = (y1, e1)" by (cases "prisma_job_count e ?w d1")
  obtain y2 e2 where q2: "prisma_job_count e ?w d2 = (y2, e2)" by (cases "prisma_job_count e ?w d2")
  from f p1 p2 have "x1 = x2" by simp
  moreover from c p1 p2 q1 q2 have "y1 = y2" by simp
  ultimately show ?thesis
    by (simp add: getAllJobsAction_unfold [OF assms(1)] p1 p2 q1 q2 split: sum.splits)
qed

lemma id_where_owner: "w_clerkId (id_where i a) = a"
  by (simp add: id_where_def owner_where_def)

lemma getSingleJobAction_same_view:
  assumes "authenticateAndRedirect (auth e) = Inr a" and "same_view a d d'"
  shows "fst (getSingleJobAction e i d) = fst (getSingleJobAction e i d')"
proof -
  from assms(2) have "same_view (w_clerkId (id_where i a)) d d'" by (simp add: id_where_owner)
  then have "fst (prisma_job_findUnique e (id_where i a) d)
      = fst (prisma_job_findUnique e (id_where i a) d')"
    by (rule findUnique_same_view)
  then show ?thesis
    by (auto simp: getSingleJobAction_def assms(1) split: prod.splits sum.splits option.splits)
qed

lemma getSingleJobAction_not_found:
  assumes "authenticateAndRedirect (auth e) = Inr a"
    and "\<forall>j \<in> set (rows d). job_id j = i \<longrightarrow> clerkId j \<noteq> a"
  shows "fst (getSingleJobAction e i d) = Inl (NEXT_REDIRECT ''/jobs'')"
proof -
  from assms(2) have "\<forall>j \<in> set (rows d). \<not> matches e (id_where i a) j"
    by (auto simp: matches_def id_where_def owner_where_def)
  then have "find (matches e (id_where i a)) (rows d) = None"
    by (simp add: find_None_iff)
  then show ?thesis
    by (simp add: getSingleJobAction_def assms(1) prisma_job_findUnique_def prisma_call_def)
qed

text \<open>
  Claim C3. For an authenticated caller, every job that the list returns is owned by
  the caller. \<open>getSingleJobAction\<close> on an id for which the caller owns no row ends in
  the redirect to \<open>/jobs\<close>, whether or not another owner has a row with that id.
  More generally the results of both reads are the same on any two databases that
  look the same to the caller: rows of other owners are not observable.
\<close>

theorem reads_are_isolated_by_owner:
  assumes "authenticateAndRedirect (auth e) = Inr a"
  shows "(\<forall>r d'. getAllJobsAction e args d = (Inr r, d') \<longrightarrow>
            (\<forall>j \<in> set (jobs_of r). clerkId j = a))
       \<and> ((\<forall>j \<in> set (rows d). job_id j = i \<longrightarrow> clerkId j \<noteq> a) \<longrightarrow>
            fst (getSingleJobAction e i d) = Inl (NEXT_REDIRECT ''/jobs''))
       \<and> (\<forall>d'. same_view a d d' \<longrightarrow>
            fst (getSingleJobAction e i d) = fst (getSingleJobAction e i d')
            \<and> fst (getAllJobsAction e args d) = fst (getAllJobsAction e args d'))"
  using getAllJobsAction_owner [OF assms] getSingleJobAction_not_found [OF assms]
    getSingleJobAction_same_view [OF assms] getAllJobsAction_same_view [OF assms]
  by blast

theorem reads_are_isolated_by_owner_witness:
  "authenticateAndRedirect (auth sample_env) = Inr ''user_A''
   \<and> same_view ''user_A'' \<lparr>rows = sample_rows, faults = []\<rparr>
        \<lparr>rows = filter (\<lambda>j. clerkId j = ''user_A'') sample_rows, faults = []\<rparr>
   \<and> fst (getSingleJobAction sample_env ''job_2'' \<lparr>rows = sample_rows, faults = []\<rparr>)
      = Inl (NEXT_REDIRECT ''/jobs'')
   \<and> fst (getSingleJobAction sample_env ''job_2''
        \<lparr>rows = filter (\<lambda>j. clerkId j = ''user_A'') sample_rows, faults = []\<rparr>)
      = Inl (NEXT_REDIRECT ''/jobs'')
   \<and> (case fst (getAllJobsAction sample_env
              \<lparr>search = None, jobStatus = None, page = None, limit = None\<rparr>
              \<lparr>rows = sample_rows, faults = []\<rparr>) of
        Inr r \<Rightarrow> map job_id (jobs_of r) = [''job_3'', ''job_1'', ''job_4'']
      | Inl _ \<Rightarrow> False)"
  (is "?h \<and> ?rest")
proof -
  have h: ?h by code_simp
  have r: ?rest by code_simp
  from h r show ?thesis
    using reads_are_isolated_by_owner
      [OF h, of "\<lparr>search = None, jobStatus = None, page = None, limit = None\<rparr>"
         "\<lparr>rows = sample_rows, faults = []\<rparr>" "''job_2''"]
    by - (rule conjI)
qed

subsection \<open>Counts by status\<close>

lemma matches_owner_where: "matches e (owner_where a) j \<longleftrightarrow> clerkId j = a"
  by (simp add: matches_def owner_where_def)

lemma foldl_upd_map:
  "foldl (\<lambda>acc curr. acc(fst curr \<mapsto> snd curr)) m0 (map (\<lambda>s. (s, f s)) ks)
     = (\<lambda>s. if s \<in> set ks then Some (f s) else m0 s)"
proof (induction ks arbitrary: m0)
  case Nil
  show ?case by simp
next
  case (Cons k ks)
  have "foldl (\<lambda>acc curr. acc(fst curr \<mapsto> snd curr)) m0 (map (\<lambda>s. (s, f s)) (k # ks))
      = (\<lambda>s. if s \<in> set ks then Some (f s) else (m0(k \<mapsto> f k)) s)"
    by (simp only: list.map foldl_Cons fst_conv snd_conv Cons.IH)
  also have "\<dots> = (\<lambda>s. if s \<in> set (k # ks) then Some (f s) else m0 s)"
    by (auto simp: fun_eq_iff)
  finally show ?case .
qed

lemma getStatsAction_ok:
  assumes "authenticateAndRedirect (auth e) = Inr a" and "\<not> faulty d"
  shows "fst (getStatsAction e d)
     = Inr ([''applied'' \<mapsto> 0, ''screening'' \<mapsto> 0, ''interview'' \<mapsto> 0, ''offer'' \<mapsto> 0,
             ''rejected'' \<mapsto> 0]
            ++ (\<lambda>s. if s \<in> status ` {j \<in> set (rows d). clerkId j = a}
                     then Some (length (filter (\<lambda>j. clerkId j = a \<and> status j = s) (rows d)))
                     else None))"
proof -
  have f: "filter (\<lambda>j. status j = s) (filter (matches e (owner_where a)) rs)
      = filter (\<lambda>j. clerkId j = a \<and> status j = s) rs" for s rs
    by (induction rs) (auto simp: matches_owner_where)
  have "set (map status (filter (matches e (owner_where a)) (rows d)))
      = status ` {j \<in> set (rows d). clerkId j = a}"
    by (auto simp: matches_owner_where)
  then show ?thesis
    using assms
    by (simp add: getStatsAction_def prisma_job_groupBy_status_def prisma_call_def Let_def
        foldl_upd_map matches_owner_where)
qed

lemma status_count_zero: "s \<notin> status ` {j \<in> set rs. clerkId j = a} \<Longrightarrow> status_count a rs s = 0"
  by (auto simp: status_count_def filter_empty_conv)

text \<open>
  Claim C4. For an authenticated caller and a storage call that does not fail,
  \<open>getStatsAction\<close> returns a mapping in which each of the five statuses maps to the
  number of the caller's rows in that status; with no row of the caller all five
  counts are zero.
\<close>

theorem stats_count_each_status:
  assumes "authenticateAndRedirect (auth e) = Inr a" and "\<not> faulty d"
  shows "\<exists>m. fst (getStatsAction e d) = Inr m
           \<and> (\<forall>s \<in> set JobStatus. m s = Some (status_count a (rows d) s))
           \<and> (filter (\<lambda>j. clerkId j = a) (rows d) = [] \<longrightarrow>
                (\<forall>s \<in> set JobStatus. m s = Some 0))"
proof -
  let ?m = "[''applied'' \<mapsto> 0, ''screening'' \<mapsto> 0, ''interview'' \<mapsto> 0, ''offer'' \<mapsto> 0,
             ''rejected'' \<mapsto> 0]
            ++ (\<lambda>s. if s \<in> status ` {j \<in> set (rows d). clerkId j = a}
                     then Some (status_count a (rows d) s) else None)"
  have five: "?m s = Some (status_count a (rows d) s)" if "s \<in> set JobStatus" for s
    using that status_count_zero [of s "rows d" a]
    by (auto simp: JobStatus_def map_add_def)
  have zero: "status_count a (rows d) s = 0" if "filter (\<lambda>j. clerkId j = a) (rows d) = []" for s
    using that by (auto simp: status_count_def filter_empty_conv)
  from five zero have "(\<forall>s \<in> set JobStatus. ?m s = Some (status_count a (rows d) s))
           \<and> (filter (\<lambda>j. clerkId j = a) (rows d) = [] \<longrightarrow>
                (\<forall>s \<in> set JobStatus. ?m s = Some 0))"
    by simp
  with getStatsAction_ok [OF assms, folded status_count_def] show ?thesis by blast
qed

theorem stats_count_each_status_witness:
  "authenticateAndRedirect (auth sample_env) = Inr ''user_A''
   \<and> \<not> faulty \<lparr>rows = sample_rows, faults = []\<rparr>
   \<and> map status (filter (\<lambda>j. clerkId j = ''user_A'') sample_rows)
      = [''applied'', ''applied'', ''offer'']
   \<and> (case fst (getStatsAction sample_env \<lparr>rows = sample_rows, faults = []\<rparr>) of
        Inr m \<Rightarrow> map m JobStatus = [Some 2, Some 0, Some 0, Some 1, Some 0]
      | Inl _ \<Rightarrow> False)
   \<and> (case fst (getStatsAction sample_env \<lparr>rows = [], faults = []\<rparr>) of
        Inr m \<Rightarrow> map m JobStatus = [Some 0, Some 0, Some 0, Some 0, Some 0]
      | Inl _ \<Rightarrow> False)"
  (is "?h \<and> ?f \<and> ?rest")
proof -
  have h: ?h by code_simp
  have f: ?f by code_simp
  have r: ?rest by code_simp
  from stats_count_each_status [OF h f] h f r show ?thesis
    by blast
qed

subsection \<open>Storage faults\<close>

lemma prisma_call_faulty: "faulty d \<Longrightarrow> prisma_call q d = (Inl PrismaError, tick d)"
  by (simp add: prisma_call_def)

lemma faulty_writes:
  assumes "authenticateAndRedirect (auth e) = Inr a" and "faulty d"
  shows "fst (createJobAction e values d) = Inr None"
    and "fst (updateJobAction e i values d) = Inr None"
    and "fst (deleteJobAction e i d) = Inr None"
  using assms
  by (simp_all add: createJobAction_def updateJobAction_def deleteJobAction_def
      prisma_job_create_def prisma_job_update_def prisma_job_delete_def prisma_call_faulty
      Let_def split: sum.splits)

lemma faulty_reads:
  assumes "authenticateAndRedirect (auth e) = Inr a" and "faulty d"
  shows "fst (getAllJobsAction e args d) = Inr failed_result"
    and "fst (getAllJobsForDownloadAction e d) = Inr []"
    and "fst (getSingleJobAction e i d) = Inl (NEXT_REDIRECT ''/jobs'')"
    and "fst (getStatsAction e d) = Inl (NEXT_REDIRECT ''/jobs'')"
    and "fst (getChartsDataAction e d) = Inl (NEXT_REDIRECT ''/jobs'')"
  using assms
  by (simp_all add: getAllJobsAction_unfold getAllJobsForDownloadAction_def
      getSingleJobAction_def getStatsAction_def getChartsDataAction_def
      prisma_job_findMany_def prisma_job_findUnique_def prisma_job_groupBy_status_def
      prisma_call_faulty Let_def)

lemma faulty_count:
  assumes "authenticateAndRedirect (auth e) = Inr a" and "faulty (tick d)"
  shows "fst (getAllJobsAction e args d) = Inr failed_result"
proof (cases "faulty d")
  case True
  with assms(1) show ?thesis by (rule faulty_reads(1))
next
  case False
  have "tick d\<lparr>rows := rows d\<rparr> = tick d" by (simp add: tick_def)
  with False assms(2) show ?thesis
    by (simp add: getAllJobsAction_unfold [OF assms(1)] prisma_job_findMany_def
        prisma_job_count_def prisma_call_def split: sum.splits)
qed

text \<open>
  Claim C7 says that every operation, the aggregate ones included, returns an empty
  or zeroed result when the storage fails. \<open>getStatsAction\<close> and
  \<open>getChartsDataAction\<close> do not return: their \<open>catch\<close> block calls \<open>redirect\<close>, which
  throws.
\<close>

theorem aggregates_redirect_on_storage_fault:
  "fst (getStatsAction sample_env \<lparr>rows = sample_rows, faults = [True]\<rparr>)
      = Inl (NEXT_REDIRECT ''/jobs'')
   \<and> fst (getChartsDataAction sample_env \<lparr>rows = sample_rows, faults = [True]\<rparr>)
      = Inl (NEXT_REDIRECT ''/jobs'')"
  by (simp add: getStatsAction_def getChartsDataAction_def sample_env_def
      authenticateAndRedirect_def prisma_job_groupBy_status_def prisma_job_findMany_def
      prisma_call_def faulty_def Let_def)

lemma writes_and_lists_never_throw:
  assumes "authenticateAndRedirect (auth e) = Inr a"
  shows "fst (createJobAction e values d) \<noteq> Inl err"
    and "fst (updateJobAction e i values d) \<noteq> Inl err"
    and "fst (deleteJobAction e i d) \<noteq> Inl err"
    and "fst (getAllJobsAction e args d) \<noteq> Inl err"
    and "fst (getAllJobsForDownloadAction e d) \<noteq> Inl err"
  by (auto simp: createJobAction_def updateJobAction_def deleteJobAction_def
      getAllJobsAction_unfold [OF assms] getAllJobsForDownloadAction_def assms Let_def
      split: sum.splits prod.splits)

lemma redirecting_reads_only_redirect:
  assumes "authenticateAndRedirect (auth e) = Inr a"
  shows "fst (getSingleJobAction e i d) = Inl err \<Longrightarrow> err = NEXT_REDIRECT ''/jobs''"
    and "fst (getStatsAction e d) = Inl err \<Longrightarrow> err = NEXT_REDIRECT ''/jobs''"
    and "fst (getChartsDataAction e d) = Inl err \<Longrightarrow> err = NEXT_REDIRECT ''/jobs''"
  by (auto simp: getSingleJobAction_def getStatsAction_def getChartsDataAction_def assms
      Let_def split: sum.splits prod.splits option.splits)

text \<open>
  Claim C7, amended. For an authenticated caller: when the storage call fails,
  create, update and delete return \<open>null\<close> and the download list is empty, while
  \<open>getSingleJobAction\<close>, \<open>getStatsAction\<close> and \<open>getChartsDataAction\<close> end in the
  redirect to \<open>/jobs\<close>; when either of the two storage calls of the list fails, the
  list returns the empty page with zero counts. Whatever the storage does, no error
  leaves create, update, delete, the list or the download list, and the only error
  that leaves the three other reads is that redirect.
\<close>

theorem storage_fault_outcomes:
  assumes "authenticateAndRedirect (auth e) = Inr a"
  shows "(faulty d \<longrightarrow>
            fst (createJobAction e values d) = Inr None
            \<and> fst (updateJobAction e i values d) = Inr None
            \<and> fst (deleteJobAction e i d) = Inr None
            \<and> fst (getAllJobsForDownloadAction e d) = Inr []
            \<and> fst (getSingleJobAction e i d) = Inl (NEXT_REDIRECT ''/jobs'')
            \<and> fst (getStatsAction e d) = Inl (NEXT_REDIRECT ''/jobs'')
            \<and> fst (getChartsDataAction e d) = Inl (NEXT_REDIRECT ''/jobs''))
       \<and> (faulty d \<or> faulty (tick d) \<longrightarrow>
            fst (getAllJobsAction e args d) = Inr failed_result)
       \<and> (\<forall>err. fst (createJobAction e values d) \<noteq> Inl err
            \<and> fst (updateJobAction e i values d) \<noteq> Inl err
            \<and> fst (deleteJobAction e i d) \<noteq> Inl err
            \<and> fst (getAllJobsAction e args d) \<noteq> Inl err
            \<and> fst (getAllJobsForDownloadAction e d) \<noteq> Inl err)
       \<and> (\<forall>err. fst (getSingleJobAction e i d) = Inl err
               \<or> fst (getStatsAction e d) = Inl err
               \<or> fst (getChartsDataAction e d) = Inl err \<longrightarrow>
             err = NEXT_REDIRECT ''/jobs'')"
proof (intro conjI)
  show "faulty d \<longrightarrow>
            fst (createJobAction e values d) = Inr None
            \<and> fst (updateJobAction e i values d) = Inr None
            \<and> fst (deleteJobAction e i d) = Inr None
            \<and> fst (getAllJobsForDownloadAction e d) = Inr []
            \<and> fst (getSingleJobAction e i d) = Inl (NEXT_REDIRECT ''/jobs'')
            \<and> fst (getStatsAction e d) = Inl (NEXT_REDIRECT ''/jobs'')
            \<and> fst (getChartsDataAction e d) = Inl (NEXT_REDIRECT ''/jobs'')"
    using faulty_writes [OF assms] faulty_reads [OF assms] by blast
  show "faulty d \<or> faulty (tick d) \<longrightarrow>
            fst (getAllJobsAction e args d) = Inr failed_result"
    using faulty_reads(1) [OF assms] faulty_count [OF assms] by blast
  show "\<forall>err. fst (createJobAction e values d) \<noteq> Inl err
            \<and> fst (updateJobAction e i values d) \<noteq> Inl err
            \<and> fst (deleteJobAction e i d) \<noteq> Inl err
            \<and> fst (getAllJobsAction e args d) \<noteq> Inl err
            \<and> fst (getAllJobsForDownloadAction e d) \<noteq> Inl err"
    using writes_and_lists_never_throw [OF assms] by blast
  show "\<forall>err. fst (getSingleJobAction e i d) = Inl err
               \<or> fst (getStatsAction e d) = Inl err
               \<or> fst (getChartsDataAction e d) = Inl err \<longrightarrow>
             err = NEXT_REDIRECT ''/jobs''"
    using redirecting_reads_only_redirect [OF assms] by blast
qed

theorem storage_fault_outcomes_witness:
  "authenticateAndRedirect (auth sample_env) = Inr ''user_A''
   \<and> faulty \<lparr>rows = sample_rows, faults = [True]\<rparr>
   \<and> \<not> faulty \<lparr>rows = sample_rows, faults = [False, True]\<rparr>
   \<and> faulty (tick \<lparr>rows = sample_rows, faults = [False, True]\<rparr>)
   \<and> fst (createJobAction sample_env (sample_input ''Engineer'')
        \<lparr>rows = sample_rows, faults = [True]\<rparr>) = Inr None
   \<and> fst (deleteJobAction sample_env ''job_1'' \<lparr>rows = sample_rows, faults = [True]\<rparr>)
      = Inr None
   \<and> fst (getAllJobsAction sample_env
        \<lparr>search = None, jobStatus = None, page = None, limit = None\<rparr>
        \<lparr>rows = sample_rows, faults = [True]\<rparr>)
      = Inr \<lparr>jobs_of = [], count_of = 0, page_of = 1, totalPages_of = Num 0\<rparr>
   \<and> fst (getAllJobsAction sample_env
        \<lparr>search = None, jobStatus = None, page = None, limit = None\<rparr>
        \<lparr>rows = sample_rows, faults = [False, True]\<rparr>)
      = Inr \<lparr>jobs_of = [], count_of = 0, page_of = 1, totalPages_of = Num 0\<rparr>"
  (is "?h \<and> ?f \<and> ?g \<and> ?t \<and> ?c \<and> ?d \<and> ?l1 \<and> ?l2")
proof -
  have h: ?h by code_simp
  have f: ?f by code_simp
  have g: ?g by code_simp
  have t: ?t by code_simp
  from storage_fault_outcomes
    [OF h, of "\<lparr>rows = sample_rows, faults = [True]\<rparr>" "sample_input ''Engineer''" "''job_1''"
      "\<lparr>search = None, jobStatus = None, page = None, limit = None\<rparr>"] f
  have c: ?c and d: ?d and l1: ?l1
    by (simp_all add: failed_result_def)
  from storage_fault_outcomes
    [OF h, of "\<lparr>rows = sample_rows, faults = [False, True]\<rparr>" "sample_input ''Engineer''"
      "''job_1''" "\<lparr>search = None, jobStatus = None, page = None, limit = None\<rparr>"] t
  have l2: ?l2
    by (simp add: failed_result_def)
  from h f g t c d l1 l2 show ?thesis by blast
qed

subsection \<open>The paginated list\<close>










subsection \<open>The monthly trend\<close>

lemma first_seen_Nil: "first_seen [] = []"
  by (simp add: first_seen_def)

lemma first_seen_snoc:
  "first_seen (xs @ [x]) = (if x \<in> set (first_seen xs) then first_seen xs else first_seen xs @ [x])"
  by (simp add: first_seen_def)

lemma set_first_seen: "set (first_seen xs) = set xs"
  by (induction xs rule: rev_induct) (auto simp: first_seen_Nil first_seen_snoc)

lemma distinct_first_seen: "distinct (first_seen xs)"
  by (induction xs rule: rev_induct) (auto simp: first_seen_Nil first_seen_snoc)

lemma count_list_snoc: "count_list (xs @ [x]) l = count_list xs l + (if x = l then 1 else 0)"
  by (induction xs) auto

lemma increment_entry_map:
  "distinct ks \<Longrightarrow>
     increment_entry x (map (\<lambda>l. (l, f l)) ks) = map (\<lambda>l. (l, if l = x then f l + 1 else f l)) ks"
proof (induction ks)
  case Nil
  show ?case by simp
next
  case (Cons k ks)
  show ?case
  proof (cases "k = x")
    case True
    with Cons.prems have "x \<notin> set ks" by simp
    then have "map (\<lambda>l. (l, f l)) ks = map (\<lambda>l. (l, if l = x then f l + 1 else f l)) ks"
      by (intro map_cong) auto
    with True show ?thesis by simp
  next
    case False
    with Cons show ?thesis by simp
  qed
qed

lemma find_tally: "find (\<lambda>entry. fst entry = x) (tally ls) \<noteq> None \<longleftrightarrow> x \<in> set ls"
  by (auto simp: tally_def find_None_iff set_first_seen)

lemma tally_snoc_old:
  assumes "x \<in> set ls"
  shows "tally (ls @ [x]) = increment_entry x (tally ls)"
proof -
  have "tally (ls @ [x]) = map (\<lambda>l. (l, count_list ls l + (if x = l then 1 else 0))) (first_seen ls)"
    using assms by (simp add: tally_def first_seen_snoc set_first_seen count_list_snoc)
  also have "\<dots> = map (\<lambda>l. (l, if l = x then count_list ls l + 1 else count_list ls l)) (first_seen ls)"
    by (intro map_cong) auto
  also have "\<dots> = increment_entry x (tally ls)"
    unfolding tally_def by (rule increment_entry_map [OF distinct_first_seen, symmetric])
  finally show ?thesis .
qed

lemma tally_snoc_new:
  assumes "x \<notin> set ls"
  shows "tally (ls @ [x]) = tally ls @ [(x, 1)]"
proof -
  have "map (\<lambda>l. (l, count_list (ls @ [x]) l)) (first_seen ls)
      = map (\<lambda>l. (l, count_list ls l)) (first_seen ls)"
    using assms by (intro map_cong) (auto simp: count_list_snoc set_first_seen)
  moreover from assms have "count_list ls x = 0" by (simp add: count_list_0_iff)
  ultimately show ?thesis
    using assms by (simp add: tally_def first_seen_snoc set_first_seen count_list_snoc)
qed

lemma count_month_tally:
  "count_month (tally ls) job = tally (ls @ [format_MMM_YY (appliedDate job)])"
  by (cases "format_MMM_YY (appliedDate job) \<in> set ls")
    (simp_all add: count_month_def Let_def find_tally tally_snoc_old tally_snoc_new
      del: not_None_eq)

lemma foldl_count_month:
  "foldl count_month (tally ls) jobs = tally (ls @ map (\<lambda>j. format_MMM_YY (appliedDate j)) jobs)"
proof (induction jobs arbitrary: ls)
  case Nil
  show ?case by simp
next
  case (Cons j jobs)
  show ?case by (simp add: count_month_tally Cons.IH)
qed

lemma tally_Nil: "tally [] = []"
  by (simp add: tally_def first_seen_Nil)

lemma foldl_count_month_Nil:
  "foldl count_month [] jobs = tally (map (\<lambda>j. format_MMM_YY (appliedDate j)) jobs)"
  using foldl_count_month [of "[]" jobs] by (simp add: tally_Nil)

lemma count_list_map: "count_list (map f xs) l = length (filter (\<lambda>x. f x = l) xs)"
  by (induction xs) auto

lemma length_filter_sort_key: "length (filter P (sort_key f xs)) = length (filter P xs)"
proof -
  have "mset (filter P (sort_key f xs)) = mset (filter P xs)" by simp
  then show ?thesis by (metis size_mset)
qed

lemma matches_charts_where:
  "matches e ((owner_where a)\<lparr>w_appliedDate_gte := Some t\<rparr>)
     = (\<lambda>j. clerkId j = a \<and> t \<le> appliedDate j)"
  by (simp add: fun_eq_iff matches_def owner_where_def)

lemma getChartsDataAction_ok:
  assumes "authenticateAndRedirect (auth e) = Inr a" and "\<not> faulty d"
  shows "fst (getChartsDataAction e d)
     = Inr (tally (map (\<lambda>j. format_MMM_YY (appliedDate j))
              (sort_key appliedDate (included a (subtract_month 6 (now e)) (rows d)))))"
  using assms
  by (simp add: getChartsDataAction_def prisma_job_findMany_def prisma_call_def paginate_def
      orderBy_appliedDate_def foldl_count_month_Nil matches_charts_where included_def Let_def
      int64_def)

lemma format_MMM_YY_label: "format_MMM_YY (appliedDate j) = month_label (applied_month j)"
  by (simp add: format_MMM_YY_def month_label_def applied_month_def fmt_MMM_def fmt_YY_def)

text \<open>Seven months ago lies before the cutoff.\<close>

lemma seven_months_before_cutoff: "subtract_month 7 t < subtract_month 6 t"
proof -
  define A where "A = year t * 12 + int (month t)"
  have "(A - 7) div 12 < (A - 6) div 12
      \<or> (A - 7) div 12 = (A - 6) div 12 \<and> (A - 7) mod 12 < (A - 6) mod 12"
    by presburger
  moreover have "0 \<le> (A - 7) mod 12" by simp
  ultimately have "(A - 7) div 12 < (A - 6) div 12
      \<or> (A - 7) div 12 = (A - 6) div 12 \<and> nat ((A - 7) mod 12) < nat ((A - 6) mod 12)"
    by (metis nat_mono_iff order_le_less_trans)
  then show ?thesis
    unfolding subtract_month_def Let_def A_def by auto
qed

lemma first_seen_map_inj:
  "inj_on f (set xs) \<Longrightarrow> first_seen (map f xs) = map f (first_seen xs)"
proof (induction xs rule: rev_induct)
  case Nil
  show ?case by (simp add: first_seen_Nil)
next
  case (snoc x xs)
  then have i: "inj_on f (set xs)" and e: "f x \<in> f ` set xs \<longleftrightarrow> x \<in> set xs"
    by (auto simp: inj_on_def)
  with snoc.IH show ?case
    by (simp add: first_seen_snoc set_first_seen)
qed

lemma count_list_map_inj:
  "inj_on f (set xs) \<Longrightarrow> x \<in> set xs \<Longrightarrow> count_list (map f xs) (f x) = count_list xs x"
proof (induction xs)
  case Nil
  then show ?case by simp
next
  case (Cons y ys)
  show ?case
  proof (cases "x \<in> set ys")
    case True
    with Cons show ?thesis by (auto simp: inj_on_def)
  next
    case False
    with Cons.prems have "x = y" by simp
    moreover from False Cons.prems have "f x \<notin> f ` set ys" by (auto simp: inj_on_def)
    then have "count_list (map f ys) (f x) = 0" by (simp add: count_list_0_iff)
    moreover from False have "count_list ys x = 0" by (simp add: count_list_0_iff)
    ultimately show ?thesis by simp
  qed
qed

lemma tally_map_inj:
  assumes "inj_on f (set xs)"
  shows "tally (map f xs) = map (\<lambda>x. (f x, count_list xs x)) (first_seen xs)"
proof -
  have "tally (map f xs) = map (\<lambda>x. (f x, count_list (map f xs) (f x))) (first_seen xs)"
    by (simp add: tally_def first_seen_map_inj [OF assms] comp_def)
  also have "\<dots> = map (\<lambda>x. (f x, count_list xs x)) (first_seen xs)"
    by (intro map_cong refl) (simp add: set_first_seen count_list_map_inj [OF assms])
  finally show ?thesis .
qed

lemma first_seen_strict_sorted:
  fixes xs :: "'a::linorder list"
  shows "sorted xs \<Longrightarrow> sorted_wrt (<) (first_seen xs)"
proof (induction xs rule: rev_induct)
  case Nil
  show ?case by (simp add: first_seen_Nil)
next
  case (snoc x xs)
  from snoc.prems have s: "sorted xs" and le: "\<forall>y \<in> set xs. y \<le> x"
    by (simp_all add: sorted_append)
  show ?case
  proof (cases "x \<in> set xs")
    case True
    with snoc.IH [OF s] show ?thesis by (simp add: first_seen_snoc set_first_seen)
  next
    case False
    with le have "\<forall>y \<in> set xs. y < x" by (metis order_le_less)
    with False snoc.IH [OF s] show ?thesis
      by (simp add: first_seen_snoc set_first_seen sorted_wrt_append)
  qed
qed

lemma applied_month_mono: "appliedDate j \<le> appliedDate k \<Longrightarrow> applied_month j \<le> applied_month k"
  by (cases "appliedDate j"; cases "appliedDate k")
    (auto simp: applied_month_def year_def month_def)

lemma sorted_applied_months: "sorted (map applied_month (sort_key appliedDate js))"
proof -
  have "sorted (map appliedDate (sort_key appliedDate js))" by simp
  then have "sorted_wrt (\<lambda>j k. appliedDate j \<le> appliedDate k) (sort_key appliedDate js)"
    by (simp add: sorted_map)
  then have "sorted_wrt (\<lambda>j k. applied_month j \<le> applied_month k) (sort_key appliedDate js)"
    by (rule sorted_wrt_mono_rel [rotated]) (simp add: applied_month_mono)
  then show ?thesis by (simp add: sorted_map)
qed

lemma monthsShort_facts:
  "length monthsShort = 12" "distinct monthsShort" "\<forall>s \<in> set monthsShort. length s = 3"
  by (simp_all add: monthsShort_def)

lemma month_label_prefix:
  assumes "m < 12"
  shows "take 3 (month_label (y, m)) = monthsShort ! m"
proof -
  from assms have "monthsShort ! m \<in> set monthsShort"
    by (simp add: monthsShort_facts(1))
  then have "length (monthsShort ! m) = 3" using monthsShort_facts(3) by blast
  with assms show ?thesis by (simp add: month_label_def)
qed

lemma month_label_month:
  assumes "month_label (y1, m1) = month_label (y2, m2)" and "m1 < 12" and "m2 < 12"
  shows "m1 = m2"
proof -
  from assms have "monthsShort ! m1 = monthsShort ! m2"
    by (metis month_label_prefix)
  with assms(2,3) show ?thesis
    by (simp add: nth_eq_iff_index_eq monthsShort_facts)
qed

text \<open>Months counted from year zero.\<close>

lemma date_le_months:
  fixes s t :: date
  assumes "s \<le> t" and "month s < 12"
  shows "year s * 12 + int (month s) \<le> year t * 12 + int (month t)"
  using assms
  by (cases s; cases t) (auto simp: year_def month_def)

lemma cutoff_months:
  "year (subtract_month n t) * 12 + int (month (subtract_month n t))
     = year t * 12 + int (month t) - int n"
  "month (subtract_month n t) < 12"
  by (simp_all add: subtract_month_def Let_def year_def month_def nat_less_iff)

lemma window_label_inj:
  assumes j: "subtract_month 6 t \<le> appliedDate j" "appliedDate j \<le> t" "month (appliedDate j) < 12"
    and k: "subtract_month 6 t \<le> appliedDate k" "appliedDate k \<le> t" "month (appliedDate k) < 12"
    and l: "month_label (applied_month j) = month_label (applied_month k)"
  shows "applied_month j = applied_month k"
proof -
  let ?A = "year t * 12 + int (month t)"
  let ?J = "year (appliedDate j) * 12 + int (month (appliedDate j))"
  let ?K = "year (appliedDate k) * 12 + int (month (appliedDate k))"
  have "?A - 6 \<le> ?J" "?A - 6 \<le> ?K"
    using date_le_months [OF j(1) cutoff_months(2)] date_le_months [OF k(1) cutoff_months(2)]
    by (simp_all add: cutoff_months(1))
  moreover have "?J \<le> ?A" "?K \<le> ?A"
    using date_le_months [OF j(2) j(3)] date_le_months [OF k(2) k(3)] by simp_all
  moreover from l j(3) k(3) have "month (appliedDate j) = month (appliedDate k)"
    unfolding applied_month_def by (rule month_label_month)
  ultimately show ?thesis
    by (simp add: applied_month_def)
qed

lemma count_list_filter: "count_list (map f xs) y = length (filter (\<lambda>x. f x = y) xs)"
  by (induction xs) auto

text \<open>
  Claim C5. For an authenticated caller and a storage call that does not fail, the
  trend is the tally of the month labels of the caller's rows whose applied date is
  at or after the moment six months before now, taken in ascending order of applied
  date: one point for each label, in first-seen order, whose count is the number of
  included rows with that label. The moment seven months before now lies before the
  cutoff, so a row applied then is excluded, and a row applied at the cutoff is
  included. The months of the points are strictly ascending, and when no included
  row is dated after now (and the month fields are months) the label names the month:
  each point counts the included rows of one month.
\<close>

theorem monthly_trend_buckets:
  fixes e :: env and d :: db and a :: string
  defines "I \<equiv> included a (subtract_month 6 (now e)) (rows d)"
  defines "S \<equiv> sort_key appliedDate (included a (subtract_month 6 (now e)) (rows d))"
  assumes "authenticateAndRedirect (auth e) = Inr a" and "\<not> faulty d"
  shows "\<exists>pts. fst (getChartsDataAction e d) = Inr pts
      \<and> pts = tally (map (\<lambda>j. format_MMM_YY (appliedDate j)) S)
      \<and> pts = map (\<lambda>l. (l, length (filter (\<lambda>j. format_MMM_YY (appliedDate j) = l) I)))
                 (first_seen (map (\<lambda>j. format_MMM_YY (appliedDate j)) S))
      \<and> set I = {j \<in> set (rows d). clerkId j = a \<and> subtract_month 6 (now e) \<le> appliedDate j}
      \<and> subtract_month 7 (now e) < subtract_month 6 (now e)
      \<and> sorted_wrt (<) (first_seen (map applied_month S))
      \<and> ((\<forall>j \<in> set I. month (appliedDate j) < 12 \<and> appliedDate j \<le> now e) \<longrightarrow>
           pts = map (\<lambda>ym. (month_label ym, length (filter (\<lambda>j. applied_month j = ym) I)))
                   (first_seen (map applied_month S)))"
proof -
  let ?lab = "\<lambda>j. format_MMM_YY (appliedDate j)"
  let ?pts = "tally (map ?lab S)"
  have r: "fst (getChartsDataAction e d) = Inr ?pts"
    unfolding S_def by (rule getChartsDataAction_ok) fact+
  have len: "length (filter P S) = length (filter P I)" for P
    unfolding S_def I_def by (rule length_filter_sort_key)
  have p1: "?pts = map (\<lambda>l. (l, length (filter (\<lambda>j. ?lab j = l) I))) (first_seen (map ?lab S))"
    by (simp add: tally_def count_list_filter len)
  have p2: "set I = {j \<in> set (rows d). clerkId j = a \<and> subtract_month 6 (now e) \<le> appliedDate j}"
    by (auto simp: I_def included_def)
  have p4: "sorted_wrt (<) (first_seen (map applied_month S))"
    unfolding S_def by (rule first_seen_strict_sorted) (rule sorted_applied_months)
  have p5: "?pts = map (\<lambda>ym. (month_label ym, length (filter (\<lambda>j. applied_month j = ym) I)))
                   (first_seen (map applied_month S))"
    if w: "\<forall>j \<in> set I. month (appliedDate j) < 12 \<and> appliedDate j \<le> now e"
  proof -
    have setS: "set S = set I" by (simp add: S_def I_def)
    have inj: "inj_on month_label (set (map applied_month S))"
    proof (rule inj_onI)
      fix x y
      assume "x \<in> set (map applied_month S)" and "y \<in> set (map applied_month S)"
        and eq: "month_label x = month_label y"
      then obtain j k where j: "j \<in> set I" "x = applied_month j"
        and k: "k \<in> set I" "y = applied_month k"
        using setS by auto
      from j(1) k(1) have c: "subtract_month 6 (now e) \<le> appliedDate j"
        "subtract_month 6 (now e) \<le> appliedDate k"
        by (simp_all add: p2)
      from w j(1) k(1) have b: "appliedDate j \<le> now e" "month (appliedDate j) < 12"
        "appliedDate k \<le> now e" "month (appliedDate k) < 12"
        by simp_all
      from eq show "x = y"
        unfolding j(2) k(2)
        by (rule window_label_inj [OF c(1) b(1) b(2) c(2) b(3) b(4)])
    qed
    have "map ?lab S = map month_label (map applied_month S)"
      by (simp add: format_MMM_YY_label)
    then have "?pts = map (\<lambda>ym. (month_label ym, count_list (map applied_month S) ym))
        (first_seen (map applied_month S))"
      by (simp only: tally_map_inj [OF inj])
    then show ?thesis
      by (simp add: count_list_filter len)
  qed
  from r p1 p2 seven_months_before_cutoff [of "now e"] p4 p5 show ?thesis
    by blast
qed

theorem monthly_trend_buckets_witness:
  "authenticateAndRedirect (auth sample_env) = Inr ''user_A''
   \<and> \<not> faulty \<lparr>rows = sample_history, faults = []\<rparr>
   \<and> subtract_month 7 (now sample_env) = (2025, 3, 2, 0)
   \<and> subtract_month 6 (now sample_env) = (2025, 4, 2, 0)
   \<and> map job_id (included ''user_A'' (subtract_month 6 (now sample_env)) sample_history)
      = [''job_1'', ''job_3'', ''job_4'', ''job_6'']
   \<and> fst (getChartsDataAction sample_env \<lparr>rows = sample_history, faults = []\<rparr>)
      = Inr [(''May 25'', 1), (''Sep 25'', 1), (''Oct 25'', 2)]"
  (is "?h1 \<and> ?h2 \<and> ?s7 \<and> ?s6 \<and> ?inc \<and> ?res")
proof -
  have h1: ?h1 by code_simp
  have h2: ?h2 by code_simp
  have s7: ?s7
    by (simp add: sample_env_def subtract_month_def date_eval daysInMonth_def isLeapYear_def)
  have s6: ?s6
    by (simp add: sample_env_def subtract_month_def date_eval daysInMonth_def isLeapYear_def)
  have inc: "included ''user_A'' (2025, 4, 2, 0) sample_history
      = [sample_job ''job_1'' ''user_A'' ''applied'' ''hybrid'' (2025, 9, 5, 0),
         sample_job ''job_3'' ''user_A'' ''applied'' ''full-time'' (2025, 9, 20, 0),
         sample_job ''job_4'' ''user_A'' ''offer'' ''part-time'' (2025, 8, 30, 0),
         sample_job ''job_6'' ''user_A'' ''screening'' ''remote'' (2025, 4, 2, 0)]"
    by (simp add: included_def sample_history_def sample_rows_def sample_job_def)
  have srt: "sort_key appliedDate (included ''user_A'' (2025, 4, 2, 0) sample_history)
      = [sample_job ''job_6'' ''user_A'' ''screening'' ''remote'' (2025, 4, 2, 0),
         sample_job ''job_4'' ''user_A'' ''offer'' ''part-time'' (2025, 8, 30, 0),
         sample_job ''job_1'' ''user_A'' ''applied'' ''hybrid'' (2025, 9, 5, 0),
         sample_job ''job_3'' ''user_A'' ''applied'' ''full-time'' (2025, 9, 20, 0)]"
    unfolding inc by (simp add: sample_job_def)
  have lab: "map (\<lambda>j. format_MMM_YY (appliedDate j))
       (sort_key appliedDate (included ''user_A'' (2025, 4, 2, 0) sample_history))
      = [''May 25'', ''Sep 25'', ''Oct 25'', ''Oct 25'']"
    unfolding srt by (simp add: sample_job_def date_eval)
  have tl: "tally [''May 25'', ''Sep 25'', ''Oct 25'', ''Oct 25'']
      = [(''May 25'', 1), (''Sep 25'', 1), (''Oct 25'', 2)]"
    by (simp add: tally_def first_seen_def)
  from monthly_trend_buckets [OF h1 h2] obtain pts
    where "fst (getChartsDataAction sample_env \<lparr>rows = sample_history, faults = []\<rparr>) = Inr pts"
      and "pts = tally (map (\<lambda>j. format_MMM_YY (appliedDate j))
                 (sort_key appliedDate
                    (included ''user_A'' (subtract_month 6 (now sample_env))
                       (rows \<lparr>rows = sample_history, faults = []\<rparr>))))"
    by blast
  then have res: ?res
    by (simp add: s6 lab tl)
  from inc have i: ?inc by (simp add: s6 sample_job_def)
  from h1 h2 s7 s6 i res show ?thesis by blast
qed

end
